theory Spec2Isabelle
  imports
    Main
    "HOL-Library.Multiset"
    "HOL-Library.Char_ord"
    "HOL-Library.List_Lexorder"
    "HOL-Library.Product_Lexorder"
begin

section \<open>The \<open>sam logs\<close> command (\<open>samcli/commands/logs/command.py\<close>)\<close>

text \<open>
  \<open>do_cli\<close> is the whole implementation of the command. It computes nothing itself: it
  sanitises its arguments and drives collaborators that live in other modules
  (\<open>parse_time\<close>, \<open>ResourcePhysicalIdResolver\<close>, \<open>generate_puller\<close>, \<open>OutputOption\<close>, the
  puller's \<open>tail\<close> and \<open>load_time_period\<close>, \<open>click\<close>). The embedding therefore takes
  the collaborators as a record of functions (\<open>env\<close>), lets each of them either return or
  raise (\<open>Inl\<close> is the exception), and returns the list of effectful calls \<open>do_cli\<close>
  made, in order, together with its outcome.

  Python values are modelled as follows: a \<open>click\<close> option with \<open>multiple=True\<close> is a
  tuple, here a list (empty when the option is not given); an option with
  \<open>default=None\<close> is a \<open>string option\<close>; truthiness of a tuple is non-emptiness, of an
  optional string it is being present and non-empty, and a \<open>datetime\<close> is always truthy.
\<close>

datatype error = Raised string

text \<open>
  \<open>get_boto_client_provider_with_config\<close> and \<open>get_boto_resource_provider_with_config\<close>
  build a provider from the region and the profile; the provider is kept as that pair.
\<close>

datatype client_provider = get_boto_client_provider_with_config "string option" "string option"

datatype resource_provider = get_boto_resource_provider_with_config "string option" "string option"

text \<open>
  \<open>ResourcePhysicalIdResolver(boto_resource_provider, boto_client_provider, stack_name, names)\<close>:
  the constructor call, kept with its four arguments.
\<close>

datatype resolver =
  ResourcePhysicalIdResolver resource_provider client_provider "string option" "string list"

text \<open>
  The effectful calls of \<open>do_cli\<close>, with the arguments each call receives. \<open>'t\<close> is the
  type of time stamps (\<open>datetime\<close>), \<open>'r\<close> the value \<open>get_resource_information\<close> returns,
  \<open>'o\<close> the type \<open>OutputOption\<close> and \<open>'p\<close> the puller. \<open>puller.tail\<close> takes a start and
  a filter; \<open>puller.load_time_period\<close> takes a start, an end and a filter.
\<close>

datatype ('t, 'r, 'o, 'p) call =
    Echo string
  | GetResourceInformation resolver bool
  | GeneratePuller client_provider 'r "string option" "string list" 'o bool
  | Tail 'p "'t option" "string option"
  | LoadTimePeriod 'p "'t option" 't "string option"
  | Secho string string

record ('t, 'r, 'o, 'p) env =
  parse_time :: "string option \<Rightarrow> string \<Rightarrow> error + 't option"
  utcnow :: 't
  get_resource_information :: "resolver \<Rightarrow> bool \<Rightarrow> error + 'r"
  OutputOption :: "string \<Rightarrow> error + 'o"
  OutputOption_text :: 'o
  generate_puller ::
    "client_provider \<Rightarrow> 'r \<Rightarrow> string option \<Rightarrow> string list \<Rightarrow> 'o \<Rightarrow> bool \<Rightarrow> error + 'p"
  tail :: "'p \<Rightarrow> 't option \<Rightarrow> string option \<Rightarrow> error + unit"
  load_time_period :: "'p \<Rightarrow> 't option \<Rightarrow> 't \<Rightarrow> string option \<Rightarrow> error + unit"
  generate_next_command_recommendation :: "(string \<times> string) list \<Rightarrow> string"

definition NAME_HINT :: string where
  "NAME_HINT = ''You can now use 'sam logs' without --name parameter, '' @
     ''which will pull the logs from all supported resources in your stack.''"

text \<open>\<open>str(x)\<close> of an optional string, as an f-string formats it.\<close>

definition py_str :: "string option \<Rightarrow> string" where
  "py_str x = (case x of None \<Rightarrow> ''None'' | Some s \<Rightarrow> s)"

definition command_suggestions :: "('t, 'r, 'o, 'p) env \<Rightarrow> string option \<Rightarrow> string" where
  "command_suggestions env stack_name =
     generate_next_command_recommendation env
       [(''Tail Logs from All Support Resources and X-Ray'',
         ''sam logs --stack-name '' @ py_str stack_name @ '' --tail --include-traces''),
        (''Tail X-Ray Information'', ''sam traces --tail'')]"

text \<open>
  \<open>x or y\<close> where \<open>x\<close> is an optional \<open>datetime\<close>: \<open>y\<close> is taken exactly when \<open>x\<close> is
  \<open>None\<close>.
\<close>

definition py_or :: "'a option \<Rightarrow> 'a \<Rightarrow> 'a" where
  "py_or x y = (case x of Some t \<Rightarrow> t | None \<Rightarrow> y)"

text \<open>\<open>OutputOption(output) if output else OutputOption.text\<close>.\<close>

definition output_option_of :: "('t, 'r, 'o, 'p) env \<Rightarrow> string option \<Rightarrow> error + 'o" where
  "output_option_of env output =
     (case output of
        None \<Rightarrow> Inr (OutputOption_text env)
      | Some s \<Rightarrow> if s \<noteq> [] then OutputOption env s else Inr (OutputOption_text env))"

text \<open>
  Sequencing: a step is the list of calls it makes and its outcome; when a step raises,
  the steps after it do not run and the exception is the outcome of the whole.
\<close>

definition and_then ::
  "'c list \<times> (error + 'a) \<Rightarrow> ('a \<Rightarrow> 'c list \<times> (error + 'b)) \<Rightarrow> 'c list \<times> (error + 'b)" where
  "and_then step rest =
     (case snd step of
        Inl e \<Rightarrow> (fst step, Inl e)
      | Inr a \<Rightarrow> (fst step @ fst (rest a), snd (rest a)))"

definition do_cli ::
  "('t, 'r, 'o, 'p) env \<Rightarrow> string list \<Rightarrow> string option \<Rightarrow> string option \<Rightarrow> bool \<Rightarrow> bool \<Rightarrow>
   string option \<Rightarrow> string option \<Rightarrow> string list \<Rightarrow> string option \<Rightarrow> string option \<Rightarrow>
   string option \<Rightarrow> ('t, 'r, 'o, 'p) call list \<times> (error + unit)" where
  "do_cli env names stack_name filter_pattern tailing include_tracing start_time end_time
      cw_log_groups output region profile =
    and_then (if names \<noteq> [] \<and> length names \<le> 1 then ([Echo NAME_HINT], Inr ())
              else ([], Inr ())) (\<lambda>u.
    and_then ([], parse_time env start_time ''start-time'') (\<lambda>sanitized_start_time.
    and_then ([], parse_time env end_time ''end-time'') (\<lambda>parsed_end_time.
    (let sanitized_end_time = py_or parsed_end_time (utcnow env);
         boto_client_provider = get_boto_client_provider_with_config region profile;
         boto_resource_provider = get_boto_resource_provider_with_config region profile;
         resource_logical_id_resolver =
           ResourcePhysicalIdResolver boto_resource_provider boto_client_provider stack_name names;
         fetch_all_when_no_resource_name_given = (cw_log_groups = [])
     in
    and_then ([GetResourceInformation resource_logical_id_resolver
                 fetch_all_when_no_resource_name_given],
              get_resource_information env resource_logical_id_resolver
                fetch_all_when_no_resource_name_given) (\<lambda>resource_information.
    and_then ([], output_option_of env output) (\<lambda>output_option.
    and_then ([GeneratePuller boto_client_provider resource_information filter_pattern
                 cw_log_groups output_option include_tracing],
              generate_puller env boto_client_provider resource_information filter_pattern
                cw_log_groups output_option include_tracing) (\<lambda>puller.
    and_then (if tailing
              then ([Tail puller sanitized_start_time filter_pattern],
                    tail env puller sanitized_start_time filter_pattern)
              else ([LoadTimePeriod puller sanitized_start_time sanitized_end_time
                       filter_pattern],
                    load_time_period env puller sanitized_start_time sanitized_end_time
                      filter_pattern)) (\<lambda>u.
    if tailing then ([Secho (command_suggestions env stack_name) ''yellow''], Inr ())
    else ([], Inr ())))))))))"

text \<open>
  The click entry point \<open>cli\<close> forwards its arguments to \<open>do_cli\<close> from under decorators
  that are defined in other modules (option validation, exception handling, telemetry);
  they are not embedded, and every statement below is about \<open>do_cli\<close>.
\<close>

text \<open>The resolver and the client provider \<open>do_cli\<close> builds from its arguments.\<close>

definition resolver_of ::
  "string option \<Rightarrow> string option \<Rightarrow> string option \<Rightarrow> string list \<Rightarrow> resolver" where
  "resolver_of region profile stack_name names =
     ResourcePhysicalIdResolver (get_boto_resource_provider_with_config region profile)
       (get_boto_client_provider_with_config region profile) stack_name names"

text \<open>The calls of a run, and the calls that start an execution mode.\<close>

definition calls :: "'c list \<times> (error + 'a) \<Rightarrow> 'c list" where
  "calls run = fst run"

fun is_echo :: "('t, 'r, 'o, 'p) call \<Rightarrow> bool" where
  "is_echo (Echo m) = True"
| "is_echo c = False"

fun is_mode_call :: "('t, 'r, 'o, 'p) call \<Rightarrow> bool" where
  "is_mode_call (Tail p s f) = True"
| "is_mode_call (LoadTimePeriod p s e f) = True"
| "is_mode_call c = False"

fun is_generate_puller :: "('t, 'r, 'o, 'p) call \<Rightarrow> bool" where
  "is_generate_puller (GeneratePuller c r f g o' i) = True"
| "is_generate_puller c = False"

fun is_get_resource_information :: "('t, 'r, 'o, 'p) call \<Rightarrow> bool" where
  "is_get_resource_information (GetResourceInformation r b) = True"
| "is_get_resource_information c = False"

text \<open>The filter argument of a call that takes one.\<close>

fun filter_of :: "('t, 'r, 'o, 'p) call \<Rightarrow> string option option" where
  "filter_of (GeneratePuller cp r f g o' i) = Some f"
| "filter_of (Tail p s f) = Some f"
| "filter_of (LoadTimePeriod p s e f) = Some f"
| "filter_of c = None"

text \<open>
  An environment for concrete runs: time stamps are numbers, \<open>parse_time\<close> returns \<open>None\<close>
  for an absent or empty string, reads \<open>''10''\<close> and \<open>''20''\<close> and rejects anything else,
  and every other collaborator returns.
\<close>

definition demo_env :: "(nat, string list, string, string) env" where
  "demo_env =
     \<lparr> parse_time = (\<lambda>s what. case s of None \<Rightarrow> Inr None
          | Some x \<Rightarrow> if x = [] then Inr None else if x = ''10'' then Inr (Some 10)
                      else if x = ''20'' then Inr (Some 20)
                      else Inl (Raised (''Unable to parse the time provided by '' @ what))),
       utcnow = 99,
       get_resource_information = (\<lambda>r fetch_all. case r of
          ResourcePhysicalIdResolver rp cp stack ns \<Rightarrow>
            Inr (if ns \<noteq> [] then ns else if fetch_all then [''FunctionA'', ''FunctionB''] else [])),
       OutputOption = (\<lambda>s. if s = ''text'' \<or> s = ''json'' then Inr s
                             else Inl (Raised ''not a valid OutputOption'')),
       OutputOption_text = ''text'',
       generate_puller = (\<lambda>cp infos f groups out tracing. Inr ''puller''),
       tail = (\<lambda>p s f. Inr ()),
       load_time_period = (\<lambda>p s e f. Inr ()),
       generate_next_command_recommendation = (\<lambda>xs. concat (map snd xs)) \<rparr>"

section \<open>The streaming engine of the specification\<close>

text \<open>
  \<open>do_cli\<close> hands the work to collaborators whose code is in other modules of the
  repository (\<open>samcli.commands.logs.puller_factory\<close>, \<open>samcli.lib.observability\<close>): the
  pullers, the merge of their events and the pre-flight validation. Their definitions
  below are written from the specification, section by section, and each says so.
\<close>

subsection \<open>Events and keys\<close>

text \<open>
  Modelled from the spec: \<open>LogEvent\<close> (data model): source identifier, timestamp in
  milliseconds, message payload, de-duplication key. The event classes of the pullers are
  missing from the source files.
\<close>

record LogEvent =
  source_id :: string
  timestamp :: nat
  message :: string
  dedup_key :: string

text \<open>
  Modelled from the spec: the ordering key of an event is (timestamp, de-dup key), compared
  lexicographically; strings are compared byte by byte.
\<close>

definition ordering_key :: "LogEvent \<Rightarrow> nat \<times> string" where
  "ordering_key e = (timestamp e, dedup_key e)"

text \<open>
  Modelled from the spec: the tie-break rule of the merge, (timestamp, de-dup key, source
  identifier): on equal timestamps the de-dup key decides, then the source identifier.
\<close>

definition merge_key :: "LogEvent \<Rightarrow> nat \<times> string \<times> string" where
  "merge_key e = (timestamp e, dedup_key e, source_id e)"

subsection \<open>The k-way merge\<close>

text \<open>
  Modelled from the spec: one step of the stable k-way merge of the multiplexer (the
  multiplexer's code is missing from the source files). Among the heads of the per-source
  sequences the step takes the least by the tie-break rule, and the head of the earliest
  sequence when several heads are equal; it returns that event and the sequences that
  remain.
\<close>

fun pick_next :: "LogEvent list list \<Rightarrow> (LogEvent \<times> LogEvent list list) option" where
  "pick_next [] = None"
| "pick_next ([] # rest) =
     (case pick_next rest of
        None \<Rightarrow> None
      | Some (e, rest') \<Rightarrow> Some (e, [] # rest'))"
| "pick_next ((x # xs) # rest) =
     (case pick_next rest of
        None \<Rightarrow> Some (x, xs # rest)
      | Some (e, rest') \<Rightarrow>
          if merge_key x \<le> merge_key e then Some (x, xs # rest)
          else Some (e, (x # xs) # rest'))"

lemma pick_next_mset:
  "pick_next seqs = Some (e, seqs') \<Longrightarrow> mset (concat seqs) = add_mset e (mset (concat seqs'))"
  by (induction seqs arbitrary: e seqs' rule: pick_next.induct)
     (auto split: option.splits if_splits)

lemma pick_next_length:
  assumes "pick_next seqs = Some p"
  shows "length (concat (snd p)) < length (concat seqs)"
proof -
  from assms have "pick_next seqs = Some (fst p, snd p)" by simp
  from pick_next_mset [OF this]
  have "size (mset (concat seqs)) = Suc (size (mset (concat (snd p))))" by simp
  then show ?thesis by simp
qed

text \<open>
  Modelled from the spec: the k-way merge over per-source sequences, shared by both
  execution modes (the multiplexer's code is missing from the source files). It repeats
  the step until every sequence is used up; each step removes one event, so it ends.
\<close>

function kway_merge :: "LogEvent list list \<Rightarrow> LogEvent list" where
  "kway_merge seqs =
     (case pick_next seqs of
        None \<Rightarrow> []
      | Some p \<Rightarrow> fst p # kway_merge (snd p))"
  by pat_completeness auto
termination
  by (relation "measure (\<lambda>seqs. length (concat seqs))") (auto dest: pick_next_length)

declare kway_merge.simps [simp del]

text \<open>
  Modelled from the spec: a per-source sequence holds the events of exactly one physical
  source.
\<close>

definition single_source :: "LogEvent list \<Rightarrow> bool" where
  "single_source xs = (\<forall>e \<in> set xs. \<forall>e' \<in> set xs. source_id e = source_id e')"

text \<open>
  Modelled from the spec: the sources of a run are de-duplicated before the pullers are
  built, so no two sequences carry the same source identifier.
\<close>

fun distinct_sources :: "LogEvent list list \<Rightarrow> bool" where
  "distinct_sources [] = True"
| "distinct_sources (xs # seqs) =
     ((\<forall>e \<in> set xs. \<forall>ys \<in> set seqs. \<forall>e' \<in> set ys. source_id e \<noteq> source_id e')
      \<and> distinct_sources seqs)"

subsection \<open>The backing service and the pullers\<close>

text \<open>
  Modelled from the spec: an event as the log-event query service returns it,
  (timestamp, message, dedupKey).
\<close>

type_synonym raw_event = "nat \<times> string \<times> string"

text \<open>
  Modelled from the spec: the puller of a source tags what the service returns with the
  identifier of its source.
\<close>

definition to_event :: "string \<Rightarrow> raw_event \<Rightarrow> LogEvent" where
  "to_event src r =
     \<lparr>source_id = src, timestamp = fst r, message = fst (snd r), dedup_key = snd (snd r)\<rparr>"

text \<open>Modelled from the spec: \<open>TimeWindow\<close>, a start (inclusive) and an end.\<close>

record TimeWindow =
  window_start :: nat
  window_end :: nat

text \<open>
  Modelled from the spec: \<open>Cursor\<close>, the timestamp and the de-dup key of the last event
  seen, that is an ordering key.
\<close>

type_synonym Cursor = "nat \<times> string"

text \<open>Modelled from the spec: \<open>SourceFetchError\<close>, tagged with the source identifier.\<close>

datatype fetch_error = SourceFetchError string

text \<open>
  Modelled from the spec: the log-event query service,
  \<open>GetEvents(sourceId, window|cursor, filterPattern)\<close>; it answers with the events of all
  pages or fails. The service is an external collaborator and is a parameter.
\<close>

type_synonym service =
  "string \<Rightarrow> TimeWindow + Cursor \<Rightarrow> string option \<Rightarrow> fetch_error + raw_event list"

text \<open>
  Modelled from the spec: \<open>FetchWindow(window, filter)\<close> of a source puller (the pullers'
  code is missing from the source files): the events of the source in the window, after
  pagination is exhausted, or a \<open>SourceFetchError\<close> tagged with the source.
\<close>

definition FetchWindow ::
  "service \<Rightarrow> string \<Rightarrow> TimeWindow \<Rightarrow> string option \<Rightarrow> fetch_error + LogEvent list" where
  "FetchWindow svc src window flt =
     (case svc src (Inl window) flt of
        Inl err \<Rightarrow> Inl (SourceFetchError src)
      | Inr raws \<Rightarrow> Inr (map (to_event src) raws))"

text \<open>
  Modelled from the spec: what the multiplexer uses of one source's fetch: its events, and
  nothing when the fetch of that source failed.
\<close>

definition fetched :: "fetch_error + LogEvent list \<Rightarrow> LogEvent list" where
  "fetched r = (case r of Inl err \<Rightarrow> [] | Inr es \<Rightarrow> es)"

text \<open>
  Modelled from the spec: \<open>LoadWindow(window, filter)\<close> of the multiplexer (its code is
  missing from the source files): \<open>FetchWindow\<close> on every source, then the k-way merge of
  the per-source sequences; the result is what is handed to the output sink.
\<close>

definition LoadWindow ::
  "service \<Rightarrow> string list \<Rightarrow> TimeWindow \<Rightarrow> string option \<Rightarrow> LogEvent list" where
  "LoadWindow svc sources window flt =
     kway_merge (map (\<lambda>src. fetched (FetchWindow svc src window flt)) sources)"

text \<open>
  Modelled from the spec: the cursor after a poll is the greatest ordering key seen so
  far; for an ordered increment that is the key of its last event, and the cursor is
  unchanged when nothing new was returned.
\<close>

definition advance :: "Cursor \<Rightarrow> LogEvent list \<Rightarrow> Cursor" where
  "advance cursor es = fold (\<lambda>e c. max c (ordering_key e)) es cursor"

text \<open>
  Modelled from the spec: \<open>Poll(cursor, filter)\<close> of a source puller (the pullers' code is
  missing from the source files): one fetch from the cursor on; an event whose ordering
  key the cursor is at or past is dropped, the others are the increment, and the updated
  cursor is returned with it. A failed fetch contributes nothing in that round and leaves
  the cursor as it was.
\<close>

definition Poll ::
  "service \<Rightarrow> string \<Rightarrow> Cursor \<Rightarrow> string option \<Rightarrow> LogEvent list \<times> Cursor" where
  "Poll svc src cursor flt =
     (case svc src (Inr cursor) flt of
        Inl err \<Rightarrow> ([], cursor)
      | Inr raws \<Rightarrow>
          (let new = filter (\<lambda>e. cursor < ordering_key e) (map (to_event src) raws)
           in (new, advance cursor new)))"

text \<open>
  Modelled from the spec: the rounds of tail mode for one source: each round polls with the
  cursor the round before returned. The service may answer differently in every round;
  the list holds the service as it is in each round. Each element of the result is the
  increment emitted in a round and the cursor returned by it.
\<close>

fun poll_rounds ::
  "service list \<Rightarrow> string \<Rightarrow> Cursor \<Rightarrow> string option \<Rightarrow> (LogEvent list \<times> Cursor) list" where
  "poll_rounds [] src cursor flt = []"
| "poll_rounds (svc # svcs) src cursor flt =
     (let r = Poll svc src cursor flt in r # poll_rounds svcs src (snd r) flt)"

subsection \<open>The filter pattern in the query service\<close>

text \<open>
  Modelled from the spec: \<open>FilterPattern\<close> is an opaque string given to each source puller;
  an empty or absent pattern means no filtering. What a pattern that is not empty matches
  is the grammar of the backing service, which the specification leaves open: it is the
  parameter \<open>matches\<close>, applied to the pattern and the message of an event. The pullers'
  code is missing from the source files.
\<close>

definition passes_filter :: "(string \<Rightarrow> string \<Rightarrow> bool) \<Rightarrow> string option \<Rightarrow> raw_event \<Rightarrow> bool" where
  "passes_filter matches flt r =
     (case flt of
        None \<Rightarrow> True
      | Some pat \<Rightarrow> if pat = [] then True else matches pat (fst (snd r)))"

text \<open>
  Modelled from the spec: the range a query asks for: a window from its start (inclusive)
  to its end (exclusive), or everything from the timestamp of a cursor on.
\<close>

fun in_range :: "TimeWindow + Cursor \<Rightarrow> raw_event \<Rightarrow> bool" where
  "in_range (Inl window) r = (window_start window \<le> fst r \<and> fst r < window_end window)"
| "in_range (Inr cursor) r = (fst cursor \<le> fst r)"

text \<open>
  Modelled from the spec: the log-event query service over the logs it stores, with the
  filter pattern pushed down to it: \<open>GetEvents\<close> returns the events of the source that are
  in the range asked for and pass the filter, and fails for a source it stores no log of.
  The service's code is an external collaborator and is missing from the source files.
\<close>

definition GetEvents ::
  "(string \<Rightarrow> raw_event list option) \<Rightarrow> (string \<Rightarrow> string \<Rightarrow> bool) \<Rightarrow> service" where
  "GetEvents logs matches src q flt =
     (case logs src of
        None \<Rightarrow> Inl (SourceFetchError src)
      | Some raws \<Rightarrow> Inr (filter (\<lambda>r. in_range q r \<and> passes_filter matches flt r) raws))"

subsection \<open>Pre-flight validation\<close>

text \<open>
  Modelled from the spec: a link of the configuration from one logical resource to the
  destination resources it is linked to, possibly defined through an indirection (a local
  variable) that prevents static resolution. The code that reads the configuration is
  missing from the source files; only its integration test is there.
\<close>

record resource_link =
  link_source :: string
  link_destinations :: "string list"
  link_via_indirection :: bool

text \<open>Modelled from the spec: the two execution modes a configuration can ask for.\<close>

datatype mode = WindowMode | TailMode

text \<open>
  Modelled from the spec: the configuration of a run as far as validation reads it: the
  mode flags and the resource links.
\<close>

record Configuration =
  mode_flags :: "mode list"
  links :: "resource_link list"

text \<open>
  Modelled from the spec: \<open>ValidationError\<close>: conflicting mode flags, one logical resource
  linked to multiple destination resources, or an indirection that prevents static
  resolution; the last two name the resource.
\<close>

datatype ValidationError =
    ConflictingModeFlags
  | MultipleDestinations string
  | UnresolvableIndirection string

text \<open>
  Modelled from the spec: the structurally invalid configurations, stated without
  reference to the order in which a validation looks for them.
\<close>

definition structurally_invalid :: "Configuration \<Rightarrow> bool" where
  "structurally_invalid cfg =
     ((WindowMode \<in> set (mode_flags cfg) \<and> TailMode \<in> set (mode_flags cfg))
      \<or> (\<exists>l \<in> set (links cfg).
            link_via_indirection l \<or> 1 < card (set (link_destinations l))))"

text \<open>Modelled from the spec: the validation of one link.\<close>

definition validate_link :: "resource_link \<Rightarrow> ValidationError option" where
  "validate_link l =
     (if link_via_indirection l then Some (UnresolvableIndirection (link_source l))
      else if 1 < length (remdups (link_destinations l))
      then Some (MultipleDestinations (link_source l))
      else None)"

text \<open>Modelled from the spec: the first link that does not validate, if any.\<close>

fun validate_links :: "resource_link list \<Rightarrow> ValidationError option" where
  "validate_links [] = None"
| "validate_links (l # ls) =
     (case validate_link l of
        Some err \<Rightarrow> Some err
      | None \<Rightarrow> validate_links ls)"

text \<open>Modelled from the spec: the pre-flight validation of a configuration.\<close>

definition validate :: "Configuration \<Rightarrow> ValidationError option" where
  "validate cfg =
     (if WindowMode \<in> set (mode_flags cfg) \<and> TailMode \<in> set (mode_flags cfg)
      then Some ConflictingModeFlags
      else validate_links (links cfg))"

text \<open>
  Modelled from the spec: what a run leaves behind: its exit code, the events handed to
  the output sink, the sources whose puller was started, and the validation error that
  aborted it, if any.
\<close>

record RunResult =
  exit_code :: nat
  emitted :: "LogEvent list"
  pullers_started :: "string list"
  validation_error :: "ValidationError option"

text \<open>
  Modelled from the spec: a run in window mode. Validation comes first; a
  \<open>ValidationError\<close> aborts the run before any puller starts, with exit code 1 (the code
  the integration test \<open>test_unsupported_limitations\<close> expects) and no output. Otherwise one puller per source is started
  and the merged window is emitted.
\<close>

definition run_window ::
  "service \<Rightarrow> Configuration \<Rightarrow> string list \<Rightarrow> TimeWindow \<Rightarrow> string option \<Rightarrow> RunResult" where
  "run_window svc cfg sources window flt =
     (case validate cfg of
        Some err \<Rightarrow>
          \<lparr>exit_code = 1, emitted = [], pullers_started = [],
           validation_error = Some err\<rparr>
      | None \<Rightarrow>
          \<lparr>exit_code = 0, emitted = LoadWindow svc sources window flt,
           pullers_started = sources, validation_error = None\<rparr>)"

subsection \<open>Concrete data\<close>

text \<open>
  Two sources: the first has events at 1 and 3, the second at 2 and at 3 with a later
  de-dup key. A third source fails.
\<close>

definition demo_service :: service where
  "demo_service src q flt =
     (if src = ''s1'' then Inr [(1, ''one'', ''e1''), (3, ''three'', ''e3'')]
      else if src = ''s2'' then Inr [(2, ''two'', ''e2''), (3, ''three again'', ''e4'')]
      else Inl (SourceFetchError src))"

definition demo_seqs :: "LogEvent list list" where
  "demo_seqs =
     [[to_event ''s1'' (1, ''one'', ''e1''), to_event ''s1'' (3, ''three'', ''e3'')],
      [to_event ''s2'' (2, ''two'', ''e2''), to_event ''s2'' (3, ''three again'', ''e4'')]]"

text \<open>
  One source in tail mode: in the first round the service returns events at 5 and 6, in
  the second round the event at 6 again and a new one at 7.
\<close>

definition demo_round1 :: service where
  "demo_round1 src q flt = Inr [(5, ''five'', ''e5''), (6, ''six'', ''e6'')]"

definition demo_round2 :: service where
  "demo_round2 src q flt = Inr [(6, ''six'', ''e6''), (7, ''seven'', ''e7'')]"

text \<open>
  A stored log of one source with two events, and a grammar in which a pattern matches
  the messages that start with it.
\<close>

definition demo_logs :: "string \<Rightarrow> raw_event list option" where
  "demo_logs src =
     (if src = ''s1'' then Some [(1, ''INFO start'', ''e1''), (3, ''ERROR boom'', ''e3'')]
      else None)"

definition demo_matches :: "string \<Rightarrow> string \<Rightarrow> bool" where
  "demo_matches pat msg = (take (length pat) msg = pat)"

text \<open>A configuration in which one resource is linked to two destinations.\<close>

definition demo_bad_config :: Configuration where
  "demo_bad_config =
     \<lparr>mode_flags = [WindowMode],
      links = [\<lparr>link_source = ''api'', link_destinations = [''f''], link_via_indirection = False\<rparr>,
               \<lparr>link_source = ''method'', link_destinations = [''f'', ''g''],
                link_via_indirection = False\<rparr>]\<rparr>"

definition demo_good_config :: Configuration where
  "demo_good_config =
     \<lparr>mode_flags = [WindowMode],
      links = [\<lparr>link_source = ''api'', link_destinations = [''f''], link_via_indirection = False\<rparr>]\<rparr>"


section \<open>Properties of the command\<close>

subsection \<open>Facts about sequencing and about concrete runs\<close>

lemma one_name: "(names \<noteq> [] \<and> length names \<le> 1) = (length names = 1)"
  by (cases names) auto

lemma calls_and_then:
  "calls (and_then step rest) =
     calls step @ (case snd step of Inl e \<Rightarrow> [] | Inr a \<Rightarrow> calls (rest a))"
  by (simp add: and_then_def calls_def split: sum.splits)

lemma calls_pair [simp]: "calls (cs, r) = cs"
  by (simp add: calls_def)

lemma calls_if: "calls (if b then x else y) = (if b then calls x else calls y)"
  by simp

lemma snd_if: "snd (if b then x else y) = (if b then snd x else snd y)"
  by simp

lemmas run_simps = calls_and_then calls_if snd_if Let_def resolver_of_def

lemmas demo_simps =
  do_cli_def demo_env_def and_then_def output_option_of_def py_or_def resolver_of_def Let_def

text \<open>What the collaborators of \<open>demo_env\<close> return.\<close>

lemma demo_collaborators:
  "parse_time demo_env None what = Inr None"
  "parse_time demo_env (Some ''10'') what = Inr (Some 10)"
  "parse_time demo_env (Some ''20'') what = Inr (Some 20)"
  "utcnow demo_env = 99"
  "get_resource_information demo_env (resolver_of r pr st ns) b =
     Inr (if ns \<noteq> [] then ns else if b then [''FunctionA'', ''FunctionB''] else [])"
  "output_option_of demo_env None = Inr ''text''"
  "output_option_of demo_env (Some []) = Inr ''text''"
  "output_option_of demo_env (Some ''json'') = Inr ''json''"
  "OutputOption demo_env ''json'' = Inr ''json''"
  "OutputOption_text demo_env = ''text''"
  "generate_puller demo_env cp infos f g opt tr = Inr ''puller''"
  by (simp_all add: demo_env_def output_option_of_def resolver_of_def)

text \<open>
  Four runs in \<open>demo_env\<close>: a bounded load with one name, a raw log group, a filter and
  the \<open>json\<close> output and no end time; the same load with an end time and no raw log
  group; a tail of a whole stack; and a run whose end time does not parse.
\<close>

lemma demo_load:
  "do_cli demo_env [''F''] (Some ''stack'') (Some ''ERROR'') False False None None
     [''/aws/lambda/g''] (Some ''json'') None None =
   ([Echo NAME_HINT,
     GetResourceInformation (resolver_of None None (Some ''stack'') [''F'']) False,
     GeneratePuller (get_boto_client_provider_with_config None None) [''F''] (Some ''ERROR'')
       [''/aws/lambda/g''] ''json'' False,
     LoadTimePeriod ''puller'' None 99 (Some ''ERROR'')], Inr ())"
  by (simp add: demo_simps)

lemma demo_load_until:
  "do_cli demo_env [] (Some ''stack'') None False False (Some ''10'') (Some ''20'')
     [] None None None =
   ([GetResourceInformation (resolver_of None None (Some ''stack'') []) True,
     GeneratePuller (get_boto_client_provider_with_config None None)
       [''FunctionA'', ''FunctionB''] None [] ''text'' False,
     LoadTimePeriod ''puller'' (Some 10) 20 None], Inr ())"
  by (simp add: demo_simps)

lemma demo_tail:
  "do_cli demo_env [] (Some ''stack'') None True False (Some ''10'') (Some ''20'')
     [] None None None =
   ([GetResourceInformation (resolver_of None None (Some ''stack'') []) True,
     GeneratePuller (get_boto_client_provider_with_config None None)
       [''FunctionA'', ''FunctionB''] None [] ''text'' False,
     Tail ''puller'' (Some 10) None,
     Secho (command_suggestions demo_env (Some ''stack'')) ''yellow''], Inr ())"
  by (simp add: demo_simps)

lemma demo_bad_end_time:
  "do_cli demo_env [] (Some ''stack'') None False False (Some ''10'') (Some ''soon'')
     [] None None None =
   ([], Inl (Raised ''Unable to parse the time provided by end-time''))"
  by (simp add: demo_simps)

subsection \<open>The hint about \<open>--name\<close>\<close>

text \<open>
  C10. The hint that the command can be used without \<open>--name\<close> is printed if and only if
  exactly one name is given: the guard \<open>names and len(names) <= 1\<close> holds for a tuple of
  length one only. It is not printed for zero names nor for two or more, whatever the
  collaborators do afterwards, and nothing else is echoed.
\<close>

theorem hint_iff_exactly_one_name:
  "(Echo NAME_HINT \<in> set (calls (do_cli env names stack_name filter_pattern tailing
        include_tracing start_time end_time cw_log_groups outp region profile)))
     = (length names = 1)
   \<and> filter is_echo (calls (do_cli env names stack_name filter_pattern tailing
        include_tracing start_time end_time cw_log_groups outp region profile))
     = (if length names = 1 then [Echo NAME_HINT] else [])"
  unfolding do_cli_def one_name
  by (simp add: run_simps split: sum.splits)

theorem hint_iff_exactly_one_name_witness:
  "Echo NAME_HINT \<in> set (calls (do_cli demo_env [''F''] (Some ''stack'') None False False
        None None [] None None None))
   \<and> Echo NAME_HINT \<notin> set (calls (do_cli demo_env [] (Some ''stack'') None False False
        None None [] None None None))
   \<and> Echo NAME_HINT \<notin> set (calls (do_cli demo_env [''F'', ''G''] (Some ''stack'') None False
        False None None [] None None None))"
  using hint_iff_exactly_one_name [of demo_env "[''F'']" "Some ''stack''" None False False
      None None "[]" None None None]
    hint_iff_exactly_one_name [of demo_env "[]" "Some ''stack''" None False False
      None None "[]" None None None]
    hint_iff_exactly_one_name [of demo_env "[''F'', ''G'']" "Some ''stack''" None False False
      None None "[]" None None None]
  by simp

subsection \<open>Raw log groups switch auto-discovery off\<close>

text \<open>
  C4. \<open>fetch_all_when_no_resource_name_given = not cw_log_groups\<close>: the resolver is asked
  to fetch all resources of the stack exactly when no CloudWatch log group is given, so
  with one or more log groups auto-discovery is off. The resolver is the one built from
  the given stack and names, and the puller is generated from exactly what that resolver
  returned together with the log groups as they were given. When the time arguments
  parse, the resolver is asked exactly once; when it answers and the output option is
  valid, the puller is generated exactly once.
\<close>

theorem raw_sources_suppress_auto_discovery:
  "(\<forall>r b. GetResourceInformation r b \<in> set (calls (do_cli env names stack_name filter_pattern tailing
        include_tracing start_time end_time cw_log_groups outp region profile)) \<longrightarrow>
       r = resolver_of region profile stack_name names \<and> b = (cw_log_groups = []))
   \<and> (\<forall>cp infos f g opt i. GeneratePuller cp infos f g opt i \<in> set (calls (do_cli env names stack_name filter_pattern tailing
        include_tracing start_time end_time cw_log_groups outp region profile)) \<longrightarrow>
       g = cw_log_groups \<and>
       get_resource_information env (resolver_of region profile stack_name names)
         (cw_log_groups = []) = Inr infos)
   \<and> (parse_time env start_time ''start-time'' = Inr s \<and>
       parse_time env end_time ''end-time'' = Inr e \<longrightarrow>
       filter is_get_resource_information (calls (do_cli env names stack_name filter_pattern tailing
        include_tracing start_time end_time cw_log_groups outp region profile)) =
         [GetResourceInformation (resolver_of region profile stack_name names)
            (cw_log_groups = [])])
   \<and> (parse_time env start_time ''start-time'' = Inr s \<and>
       parse_time env end_time ''end-time'' = Inr e \<and>
       get_resource_information env (resolver_of region profile stack_name names)
         (cw_log_groups = []) = Inr infos' \<and>
       output_option_of env outp = Inr opt' \<longrightarrow>
       filter is_generate_puller (calls (do_cli env names stack_name filter_pattern tailing
        include_tracing start_time end_time cw_log_groups outp region profile)) =
         [GeneratePuller (get_boto_client_provider_with_config region profile) infos'
            filter_pattern cw_log_groups opt' include_tracing])"
  unfolding do_cli_def one_name
  by (simp add: run_simps split: sum.splits)

theorem raw_sources_suppress_auto_discovery_witness:
  "filter is_get_resource_information (calls (do_cli demo_env [] (Some ''stack'') None False
       False None None [''/aws/lambda/g''] None None None)) =
     [GetResourceInformation (resolver_of None None (Some ''stack'') []) False]
   \<and> filter is_generate_puller (calls (do_cli demo_env [] (Some ''stack'') None False
       False None None [''/aws/lambda/g''] None None None)) =
     [GeneratePuller (get_boto_client_provider_with_config None None) [] None
        [''/aws/lambda/g''] ''text'' False]
   \<and> filter is_get_resource_information (calls (do_cli demo_env [] (Some ''stack'') None False
       False None None [] None None None)) =
     [GetResourceInformation (resolver_of None None (Some ''stack'') []) True]
   \<and> filter is_generate_puller (calls (do_cli demo_env [] (Some ''stack'') None False
       False None None [] None None None)) =
     [GeneratePuller (get_boto_client_provider_with_config None None)
        [''FunctionA'', ''FunctionB''] None [] ''text'' False]"
  using raw_sources_suppress_auto_discovery [where env = demo_env and names = "[]"
      and stack_name = "Some ''stack''" and filter_pattern = None and tailing = False
      and include_tracing = False and start_time = None and end_time = None
      and cw_log_groups = "[''/aws/lambda/g'']" and outp = None and region = None
      and profile = None and s = None and e = None and infos' = "[]" and opt' = "''text''"]
    raw_sources_suppress_auto_discovery [where env = demo_env and names = "[]"
      and stack_name = "Some ''stack''" and filter_pattern = None and tailing = False
      and include_tracing = False and start_time = None and end_time = None
      and cw_log_groups = "[]" and outp = None and region = None
      and profile = None and s = None and e = None
      and infos' = "[''FunctionA'', ''FunctionB'']" and opt' = "''text''"]
  by (simp add: demo_collaborators)

subsection \<open>Tail or load\<close>

lemma load_end:
  "LoadTimePeriod p s e f \<in> set (calls (do_cli env names stack_name filter_pattern tailing
        include_tracing start_time end_time cw_log_groups outp region profile)) \<Longrightarrow>
     (case parse_time env end_time ''end-time'' of
        Inl x \<Rightarrow> False
      | Inr parsed \<Rightarrow> e = py_or parsed (utcnow env))"
  unfolding do_cli_def one_name
  by (auto simp add: run_simps split: sum.splits if_splits)

text \<open>
  C6. At most one of \<open>puller.tail\<close> and \<open>puller.load_time_period\<close> is ever called, and
  never the one of the other mode: \<open>tail\<close> only when the tail flag is set,
  \<open>load_time_period\<close> only when it is not. Once the puller has been generated (the
  collaborators before it returned), exactly one of them is called: with the tail flag,
  \<open>tail\<close> with the sanitized start time and the filter, and no end; without it,
  \<open>load_time_period\<close> with the start, the end and the filter. In tail mode the end time
  has no influence on the run: two end times that both parse give the same calls and
  the same outcome.
\<close>

theorem exactly_one_mode_runs:
  "length (filter is_mode_call (calls (do_cli env names stack_name filter_pattern tailing
        include_tracing start_time end_time cw_log_groups outp region profile))) \<le> 1
   \<and> (\<forall>p' s' f. Tail p' s' f \<in> set (calls (do_cli env names stack_name filter_pattern tailing
        include_tracing start_time end_time cw_log_groups outp region profile)) \<longrightarrow> tailing)
   \<and> (\<forall>p' s' e' f. LoadTimePeriod p' s' e' f \<in> set (calls (do_cli env names stack_name filter_pattern tailing
        include_tracing start_time end_time cw_log_groups outp region profile)) \<longrightarrow> \<not> tailing)
   \<and> (parse_time env start_time ''start-time'' = Inr s \<and>
       parse_time env end_time ''end-time'' = Inr e \<and>
       get_resource_information env (resolver_of region profile stack_name names)
         (cw_log_groups = []) = Inr infos \<and>
       output_option_of env outp = Inr opt \<and>
       generate_puller env (get_boto_client_provider_with_config region profile) infos
         filter_pattern cw_log_groups opt include_tracing = Inr p \<longrightarrow>
       filter is_mode_call (calls (do_cli env names stack_name filter_pattern tailing
        include_tracing start_time end_time cw_log_groups outp region profile)) =
         [if tailing then Tail p s filter_pattern
          else LoadTimePeriod p s (py_or e (utcnow env)) filter_pattern])
   \<and> (tailing \<and> parse_time env end_time ''end-time'' = Inr e \<and>
       parse_time env other_end_time ''end-time'' = Inr other_e \<longrightarrow>
       do_cli env names stack_name filter_pattern tailing include_tracing start_time end_time
         cw_log_groups outp region profile =
       do_cli env names stack_name filter_pattern tailing include_tracing start_time other_end_time
         cw_log_groups outp region profile)"
proof (intro conjI)
  show "length (filter is_mode_call (calls (do_cli env names stack_name filter_pattern tailing
        include_tracing start_time end_time cw_log_groups outp region profile))) \<le> 1"
    unfolding do_cli_def one_name by (simp add: run_simps split: sum.splits)
  show "\<forall>p' s' f. Tail p' s' f \<in> set (calls (do_cli env names stack_name filter_pattern tailing
        include_tracing start_time end_time cw_log_groups outp region profile)) \<longrightarrow> tailing"
    unfolding do_cli_def one_name by (simp add: run_simps split: sum.splits)
  show "\<forall>p' s' e' f. LoadTimePeriod p' s' e' f \<in> set (calls (do_cli env names stack_name filter_pattern tailing
        include_tracing start_time end_time cw_log_groups outp region profile)) \<longrightarrow> \<not> tailing"
    unfolding do_cli_def one_name by (simp add: run_simps split: sum.splits)
  show "parse_time env start_time ''start-time'' = Inr s \<and>
       parse_time env end_time ''end-time'' = Inr e \<and>
       get_resource_information env (resolver_of region profile stack_name names)
         (cw_log_groups = []) = Inr infos \<and>
       output_option_of env outp = Inr opt \<and>
       generate_puller env (get_boto_client_provider_with_config region profile) infos
         filter_pattern cw_log_groups opt include_tracing = Inr p \<longrightarrow>
       filter is_mode_call (calls (do_cli env names stack_name filter_pattern tailing
        include_tracing start_time end_time cw_log_groups outp region profile)) =
         [if tailing then Tail p s filter_pattern
          else LoadTimePeriod p s (py_or e (utcnow env)) filter_pattern]"
    unfolding do_cli_def one_name by (simp add: run_simps split: sum.splits)
  show "tailing \<and> parse_time env end_time ''end-time'' = Inr e \<and>
       parse_time env other_end_time ''end-time'' = Inr other_e \<longrightarrow>
       do_cli env names stack_name filter_pattern tailing include_tracing start_time end_time
         cw_log_groups outp region profile =
       do_cli env names stack_name filter_pattern tailing include_tracing start_time other_end_time
         cw_log_groups outp region profile"
    unfolding do_cli_def by (simp add: and_then_def Let_def split: sum.splits)
qed

theorem exactly_one_mode_runs_witness:
  "filter is_mode_call (calls (do_cli demo_env [] (Some ''stack'') None True False
       (Some ''10'') (Some ''20'') [] None None None)) = [Tail ''puller'' (Some 10) None]
   \<and> filter is_mode_call (calls (do_cli demo_env [] (Some ''stack'') None False False
       (Some ''10'') (Some ''20'') [] None None None)) = [LoadTimePeriod ''puller'' (Some 10) 20 None]
   \<and> do_cli demo_env [] (Some ''stack'') None True False (Some ''10'') (Some ''20'')
       [] None None None =
     do_cli demo_env [] (Some ''stack'') None True False (Some ''10'') None
       [] None None None"
proof -
  note tailing = exactly_one_mode_runs [where env = demo_env and names = "[]"
      and stack_name = "Some ''stack''" and filter_pattern = None and tailing = True
      and include_tracing = False and start_time = "Some ''10''" and end_time = "Some ''20''"
      and other_end_time = None and cw_log_groups = "[]" and outp = None and region = None
      and profile = None and s = "Some 10" and e = "Some 20" and other_e = None
      and infos = "[''FunctionA'', ''FunctionB'']" and opt = "''text''" and p = "''puller''"]
  note loading = exactly_one_mode_runs [where env = demo_env and names = "[]"
      and stack_name = "Some ''stack''" and filter_pattern = None and tailing = False
      and include_tracing = False and start_time = "Some ''10''" and end_time = "Some ''20''"
      and other_end_time = None and cw_log_groups = "[]" and outp = None and region = None
      and profile = None and s = "Some 10" and e = "Some 20" and other_e = None
      and infos = "[''FunctionA'', ''FunctionB'']" and opt = "''text''" and p = "''puller''"]
  have a: "filter is_mode_call (calls (do_cli demo_env [] (Some ''stack'') None True False
       (Some ''10'') (Some ''20'') [] None None None)) = [Tail ''puller'' (Some 10) None]"
    using tailing [THEN conjunct2, THEN conjunct2, THEN conjunct2, THEN conjunct1]
    by (simp add: demo_collaborators)
  have b: "filter is_mode_call (calls (do_cli demo_env [] (Some ''stack'') None False False
       (Some ''10'') (Some ''20'') [] None None None)) = [LoadTimePeriod ''puller'' (Some 10) 20 None]"
    using loading [THEN conjunct2, THEN conjunct2, THEN conjunct2, THEN conjunct1]
    by (simp add: demo_collaborators py_or_def)
  have c: "do_cli demo_env [] (Some ''stack'') None True False (Some ''10'') (Some ''20'')
       [] None None None =
     do_cli demo_env [] (Some ''stack'') None True False (Some ''10'') None
       [] None None None"
    using tailing [THEN conjunct2, THEN conjunct2, THEN conjunct2, THEN conjunct2]
    by (simp add: demo_collaborators)
  show ?thesis
    by (rule conjI [OF a conjI [OF b c]])
qed

subsection \<open>The end of the window\<close>

text \<open>
  C7. \<open>sanitized_end_time = parse_time(end_time, "end-time") or datetime.utcnow()\<close>.
  \<open>parse_time\<close> is not part of the source files and is a parameter; it returns \<open>None\<close>
  when there is no end time to parse. Every \<open>load_time_period\<close> call of a run gets as
  its end either the current time, when \<open>parse_time\<close> returned \<open>None\<close>, or the very time
  \<open>parse_time\<close> returned. In window mode, once the puller has been generated, the load
  is called exactly once with that end.
\<close>

theorem end_time_defaults_to_now:
  "(\<forall>p' s' e' f. LoadTimePeriod p' s' e' f \<in> set (calls (do_cli env names stack_name filter_pattern tailing
        include_tracing start_time end_time cw_log_groups outp region profile)) \<longrightarrow>
       (parse_time env end_time ''end-time'' = Inr None \<and> e' = utcnow env) \<or>
       parse_time env end_time ''end-time'' = Inr (Some e'))
   \<and> (\<not> tailing \<and>
       parse_time env start_time ''start-time'' = Inr s \<and>
       parse_time env end_time ''end-time'' = Inr None \<and>
       get_resource_information env (resolver_of region profile stack_name names)
         (cw_log_groups = []) = Inr infos \<and>
       output_option_of env outp = Inr opt \<and>
       generate_puller env (get_boto_client_provider_with_config region profile) infos
         filter_pattern cw_log_groups opt include_tracing = Inr p \<longrightarrow>
       filter is_mode_call (calls (do_cli env names stack_name filter_pattern tailing
        include_tracing start_time end_time cw_log_groups outp region profile)) = [LoadTimePeriod p s (utcnow env) filter_pattern])
   \<and> (\<not> tailing \<and>
       parse_time env start_time ''start-time'' = Inr s \<and>
       parse_time env end_time ''end-time'' = Inr (Some t) \<and>
       get_resource_information env (resolver_of region profile stack_name names)
         (cw_log_groups = []) = Inr infos \<and>
       output_option_of env outp = Inr opt \<and>
       generate_puller env (get_boto_client_provider_with_config region profile) infos
         filter_pattern cw_log_groups opt include_tracing = Inr p \<longrightarrow>
       filter is_mode_call (calls (do_cli env names stack_name filter_pattern tailing
        include_tracing start_time end_time cw_log_groups outp region profile)) = [LoadTimePeriod p s t filter_pattern])"
proof (intro conjI allI impI)
  fix p' s' e' f
  assume "LoadTimePeriod p' s' e' f \<in> set (calls (do_cli env names stack_name filter_pattern tailing
        include_tracing start_time end_time cw_log_groups outp region profile))"
  from load_end [OF this] obtain parsed where
    "parse_time env end_time ''end-time'' = Inr parsed" "e' = py_or parsed (utcnow env)"
    by (cases "parse_time env end_time ''end-time''") simp_all
  then show "(parse_time env end_time ''end-time'' = Inr None \<and> e' = utcnow env) \<or>
      parse_time env end_time ''end-time'' = Inr (Some e')"
    by (cases parsed) (simp_all add: py_or_def)
next
  assume "\<not> tailing \<and>
       parse_time env start_time ''start-time'' = Inr s \<and>
       parse_time env end_time ''end-time'' = Inr None \<and>
       get_resource_information env (resolver_of region profile stack_name names)
         (cw_log_groups = []) = Inr infos \<and>
       output_option_of env outp = Inr opt \<and>
       generate_puller env (get_boto_client_provider_with_config region profile) infos
         filter_pattern cw_log_groups opt include_tracing = Inr p"
  then show "filter is_mode_call (calls (do_cli env names stack_name filter_pattern tailing
        include_tracing start_time end_time cw_log_groups outp region profile)) = [LoadTimePeriod p s (utcnow env) filter_pattern]"
    unfolding do_cli_def one_name by (simp add: run_simps py_or_def split: sum.splits)
next
  assume "\<not> tailing \<and>
       parse_time env start_time ''start-time'' = Inr s \<and>
       parse_time env end_time ''end-time'' = Inr (Some t) \<and>
       get_resource_information env (resolver_of region profile stack_name names)
         (cw_log_groups = []) = Inr infos \<and>
       output_option_of env outp = Inr opt \<and>
       generate_puller env (get_boto_client_provider_with_config region profile) infos
         filter_pattern cw_log_groups opt include_tracing = Inr p"
  then show "filter is_mode_call (calls (do_cli env names stack_name filter_pattern tailing
        include_tracing start_time end_time cw_log_groups outp region profile)) = [LoadTimePeriod p s t filter_pattern]"
    unfolding do_cli_def one_name by (simp add: run_simps py_or_def split: sum.splits)
qed

theorem end_time_defaults_to_now_witness:
  "parse_time demo_env None ''end-time'' = Inr None
   \<and> utcnow demo_env = 99
   \<and> filter is_mode_call (calls (do_cli demo_env [] (Some ''stack'') None False False
       (Some ''10'') None [] None None None)) = [LoadTimePeriod ''puller'' (Some 10) 99 None]
   \<and> parse_time demo_env (Some ''20'') ''end-time'' = Inr (Some 20)
   \<and> filter is_mode_call (calls (do_cli demo_env [] (Some ''stack'') None False False
       (Some ''10'') (Some ''20'') [] None None None)) = [LoadTimePeriod ''puller'' (Some 10) 20 None]"
  using end_time_defaults_to_now [where env = demo_env and names = "[]"
      and stack_name = "Some ''stack''" and filter_pattern = None and tailing = False
      and include_tracing = False and start_time = "Some ''10''" and end_time = None
      and cw_log_groups = "[]" and outp = None and region = None
      and profile = None and s = "Some 10" and t = 20
      and infos = "[''FunctionA'', ''FunctionB'']" and opt = "''text''" and p = "''puller''"]
    end_time_defaults_to_now [where env = demo_env and names = "[]"
      and stack_name = "Some ''stack''" and filter_pattern = None and tailing = False
      and include_tracing = False and start_time = "Some ''10''" and end_time = "Some ''20''"
      and cw_log_groups = "[]" and outp = None and region = None
      and profile = None and s = "Some 10" and t = 20
      and infos = "[''FunctionA'', ''FunctionB'']" and opt = "''text''" and p = "''puller''"]
  by (simp add: demo_collaborators)

subsection \<open>The filter pattern\<close>

lemma no_filter_passes:
  "flt = None \<or> flt = Some [] \<Longrightarrow> passes_filter matches flt r"
  by (auto simp: passes_filter_def)

lemma ordering_key_to_event: "ordering_key (to_event src r) = (fst r, snd (snd r))"
  by (simp add: ordering_key_def to_event_def)

lemma past_cursor_in_range:
  "cursor < ordering_key (to_event src r) \<Longrightarrow> in_range (Inr cursor) r"
  by (cases cursor) (auto simp: ordering_key_to_event)

lemma in_range_window:
  "in_range (Inl window) = (\<lambda>r. window_start window \<le> fst r \<and> fst r < window_end window)"
  by (rule ext) simp

lemma FetchWindow_no_filter:
  assumes "flt = None \<or> flt = Some []" "logs src = Some raws"
  shows "FetchWindow (GetEvents logs matches) src window flt =
     Inr (map (to_event src) (filter (in_range (Inl window)) raws))"
  using assms by (auto simp: FetchWindow_def GetEvents_def passes_filter_def in_range_window)

lemma FetchWindow_no_filter_any_grammar:
  assumes "flt = None \<or> flt = Some []"
  shows "FetchWindow (GetEvents logs matches) src window flt =
         FetchWindow (GetEvents logs (\<lambda>pat msg. True)) src window flt"
  using assms by (auto simp: FetchWindow_def GetEvents_def passes_filter_def split: option.splits)

lemma Poll_no_filter:
  assumes "flt = None \<or> flt = Some []" "logs src = Some raws"
  shows "fst (Poll (GetEvents logs matches) src cursor flt) =
     filter (\<lambda>e. cursor < ordering_key e) (map (to_event src) raws)"
proof -
  have "filter (\<lambda>r. in_range (Inr cursor) r \<and> cursor < ordering_key (to_event src r)) raws =
        filter (\<lambda>r. cursor < ordering_key (to_event src r)) raws"
    by (rule filter_cong [OF refl]) (auto dest: past_cursor_in_range)
  with assms show ?thesis
    by (auto simp: Poll_def GetEvents_def passes_filter_def Let_def filter_map comp_def)
qed

text \<open>
  C8. Every call of \<open>do_cli\<close> that takes a filter gets exactly the \<open>filter_pattern\<close>
  \<open>do_cli\<close> was given, the value of \<open>--filter\<close>: \<open>generate_puller\<close> when the puller is
  built, and \<open>tail\<close> or \<open>load_time_period\<close> afterwards; \<open>do_cli\<close> never looks at the value
  and puts no pattern in the place of an absent or empty one. In the pullers of the
  specification that same value, when absent or empty, means no filtering: a window fetch
  returns every stored event of the source in the window, a poll emits every stored event
  past the cursor, and the merged window is what it is under a grammar that matches
  everything. A pattern that is not empty keeps the events whose message it matches.
\<close>

theorem filter_passed_unmodified:
  "(\<forall>k \<in> set (calls (do_cli env names stack_name filter_pattern tailing
        include_tracing start_time end_time cw_log_groups outp region profile)). \<forall>f. filter_of k = Some f \<longrightarrow> f = filter_pattern)
   \<and> (parse_time env start_time ''start-time'' = Inr s \<and>
       parse_time env end_time ''end-time'' = Inr e \<and>
       get_resource_information env (resolver_of region profile stack_name names)
         (cw_log_groups = []) = Inr infos \<and>
       output_option_of env outp = Inr opt \<and>
       generate_puller env (get_boto_client_provider_with_config region profile)
         infos filter_pattern cw_log_groups opt include_tracing = Inr p \<longrightarrow>
       filter is_generate_puller (calls (do_cli env names stack_name filter_pattern tailing
        include_tracing start_time end_time cw_log_groups outp region profile)) =
         [GeneratePuller (get_boto_client_provider_with_config region profile)
            infos filter_pattern cw_log_groups opt include_tracing] \<and>
       filter is_mode_call (calls (do_cli env names stack_name filter_pattern tailing
        include_tracing start_time end_time cw_log_groups outp region profile)) =
         [if tailing then Tail p s filter_pattern
          else LoadTimePeriod p s (py_or e (utcnow env)) filter_pattern])
   \<and> ((filter_pattern = None \<or> filter_pattern = Some []) \<and> logs src = Some raws \<longrightarrow>
       FetchWindow (GetEvents logs matches) src window filter_pattern =
         Inr (map (to_event src) (filter (in_range (Inl window)) raws)) \<and>
       fst (Poll (GetEvents logs matches) src cursor filter_pattern) =
         filter (\<lambda>ev. cursor < ordering_key ev) (map (to_event src) raws))
   \<and> (filter_pattern = None \<or> filter_pattern = Some [] \<longrightarrow>
       LoadWindow (GetEvents logs matches) sources window filter_pattern =
       LoadWindow (GetEvents logs (\<lambda>pat msg. True)) sources window filter_pattern)
   \<and> (filter_pattern = Some pat \<and> pat \<noteq> [] \<and> logs src = Some raws \<longrightarrow>
       FetchWindow (GetEvents logs matches) src window filter_pattern =
         Inr (map (to_event src)
           (filter (\<lambda>r. in_range (Inl window) r \<and> matches pat (fst (snd r))) raws)))"
proof -
  have 1: "\<forall>k \<in> set (calls (do_cli env names stack_name filter_pattern tailing
        include_tracing start_time end_time cw_log_groups outp region profile)). \<forall>f. filter_of k = Some f \<longrightarrow> f = filter_pattern"
    unfolding do_cli_def one_name
    by (auto simp add: run_simps split: sum.splits if_splits)
  have 2: "parse_time env start_time ''start-time'' = Inr s \<and>
       parse_time env end_time ''end-time'' = Inr e \<and>
       get_resource_information env (resolver_of region profile stack_name names)
         (cw_log_groups = []) = Inr infos \<and>
       output_option_of env outp = Inr opt \<and>
       generate_puller env (get_boto_client_provider_with_config region profile)
         infos filter_pattern cw_log_groups opt include_tracing = Inr p \<longrightarrow>
       filter is_generate_puller (calls (do_cli env names stack_name filter_pattern tailing
        include_tracing start_time end_time cw_log_groups outp region profile)) =
         [GeneratePuller (get_boto_client_provider_with_config region profile)
            infos filter_pattern cw_log_groups opt include_tracing] \<and>
       filter is_mode_call (calls (do_cli env names stack_name filter_pattern tailing
        include_tracing start_time end_time cw_log_groups outp region profile)) =
         [if tailing then Tail p s filter_pattern
          else LoadTimePeriod p s (py_or e (utcnow env)) filter_pattern]"
    unfolding do_cli_def one_name
    by (simp add: run_simps split: sum.splits)
  have 3: "(filter_pattern = None \<or> filter_pattern = Some []) \<and> logs src = Some raws \<longrightarrow>
       FetchWindow (GetEvents logs matches) src window filter_pattern =
         Inr (map (to_event src) (filter (in_range (Inl window)) raws)) \<and>
       fst (Poll (GetEvents logs matches) src cursor filter_pattern) =
         filter (\<lambda>ev. cursor < ordering_key ev) (map (to_event src) raws)"
    using FetchWindow_no_filter [of filter_pattern logs src raws matches window]
      Poll_no_filter [of filter_pattern logs src raws matches cursor]
    by blast
  have 4: "filter_pattern = None \<or> filter_pattern = Some [] \<longrightarrow>
       LoadWindow (GetEvents logs matches) sources window filter_pattern =
       LoadWindow (GetEvents logs (\<lambda>pat msg. True)) sources window filter_pattern"
  proof
    assume a: "filter_pattern = None \<or> filter_pattern = Some []"
    show "LoadWindow (GetEvents logs matches) sources window filter_pattern =
       LoadWindow (GetEvents logs (\<lambda>pat msg. True)) sources window filter_pattern"
      unfolding LoadWindow_def
      by (simp only: FetchWindow_no_filter_any_grammar [OF a, of logs matches])
  qed
  have 5: "filter_pattern = Some pat \<and> pat \<noteq> [] \<and> logs src = Some raws \<longrightarrow>
       FetchWindow (GetEvents logs matches) src window filter_pattern =
         Inr (map (to_event src)
           (filter (\<lambda>r. in_range (Inl window) r \<and> matches pat (fst (snd r))) raws))"
    by (auto simp: FetchWindow_def GetEvents_def passes_filter_def)
  show ?thesis
    by (rule conjI [OF 1 conjI [OF 2 conjI [OF 3 conjI [OF 4 5]]]])
qed

theorem filter_passed_unmodified_witness:
  "filter is_generate_puller (calls (do_cli demo_env [''F''] (Some ''stack'') (Some ''ERROR'')
       False False None None [''/aws/lambda/g''] (Some ''json'') None None)) =
     [GeneratePuller (get_boto_client_provider_with_config None None) [''F''] (Some ''ERROR'')
        [''/aws/lambda/g''] ''json'' False]
   \<and> filter is_mode_call (calls (do_cli demo_env [''F''] (Some ''stack'') (Some ''ERROR'')
       False False None None [''/aws/lambda/g''] (Some ''json'') None None)) =
     [LoadTimePeriod ''puller'' None 99 (Some ''ERROR'')]
   \<and> FetchWindow (GetEvents demo_logs demo_matches) ''s1''
       \<lparr>window_start = 0, window_end = 10\<rparr> (Some ''ERROR'') =
     Inr [to_event ''s1'' (3, ''ERROR boom'', ''e3'')]
   \<and> filter is_mode_call (calls (do_cli demo_env [] (Some ''stack'') None
       True False (Some ''10'') None [] None None None)) =
     [Tail ''puller'' (Some 10) None]
   \<and> FetchWindow (GetEvents demo_logs demo_matches) ''s1''
       \<lparr>window_start = 0, window_end = 10\<rparr> None =
     Inr [to_event ''s1'' (1, ''INFO start'', ''e1''), to_event ''s1'' (3, ''ERROR boom'', ''e3'')]"
proof -
  note filtered = filter_passed_unmodified [where env = demo_env and names = "[''F'']"
      and stack_name = "Some ''stack''" and filter_pattern = "Some ''ERROR''"
      and tailing = False and include_tracing = False and start_time = None
      and end_time = None and cw_log_groups = "[''/aws/lambda/g'']" and outp = "Some ''json''"
      and region = None and profile = None
      and s = None and e = None and infos = "[''F'']" and opt = "''json''" and p = "''puller''"
      and logs = demo_logs and matches = demo_matches and src = "''s1''"
      and raws = "[(1, ''INFO start'', ''e1''), (3, ''ERROR boom'', ''e3'')]"
      and window = "\<lparr>window_start = 0, window_end = 10\<rparr>" and pat = "''ERROR''"]
  note unfiltered = filter_passed_unmodified [where env = demo_env and names = "[]"
      and stack_name = "Some ''stack''" and filter_pattern = None
      and tailing = True and include_tracing = False and start_time = "Some ''10''"
      and end_time = None and cw_log_groups = "[]" and outp = None
      and region = None and profile = None
      and s = "Some 10" and e = None and infos = "[''FunctionA'', ''FunctionB'']"
      and opt = "''text''" and p = "''puller''"
      and logs = demo_logs and matches = demo_matches and src = "''s1''"
      and raws = "[(1, ''INFO start'', ''e1''), (3, ''ERROR boom'', ''e3'')]"
      and window = "\<lparr>window_start = 0, window_end = 10\<rparr>"]
  have a: "filter is_generate_puller (calls (do_cli demo_env [''F''] (Some ''stack'')
       (Some ''ERROR'') False False None None [''/aws/lambda/g''] (Some ''json'') None None)) =
     [GeneratePuller (get_boto_client_provider_with_config None None) [''F''] (Some ''ERROR'')
        [''/aws/lambda/g''] ''json'' False]"
    and b: "filter is_mode_call (calls (do_cli demo_env [''F''] (Some ''stack'') (Some ''ERROR'')
       False False None None [''/aws/lambda/g''] (Some ''json'') None None)) =
     [LoadTimePeriod ''puller'' None 99 (Some ''ERROR'')]"
    using filtered [THEN conjunct2, THEN conjunct1]
    by (simp_all add: demo_collaborators py_or_def)
  have c: "FetchWindow (GetEvents demo_logs demo_matches) ''s1''
       \<lparr>window_start = 0, window_end = 10\<rparr> (Some ''ERROR'') =
     Inr [to_event ''s1'' (3, ''ERROR boom'', ''e3'')]"
    using filtered [THEN conjunct2, THEN conjunct2, THEN conjunct2, THEN conjunct2]
    by (simp add: demo_logs_def demo_matches_def)
  have d: "filter is_mode_call (calls (do_cli demo_env [] (Some ''stack'') None
       True False (Some ''10'') None [] None None None)) =
     [Tail ''puller'' (Some 10) None]"
    using unfiltered [THEN conjunct2, THEN conjunct1]
    by (simp add: demo_collaborators)
  have e: "FetchWindow (GetEvents demo_logs demo_matches) ''s1''
       \<lparr>window_start = 0, window_end = 10\<rparr> None =
     Inr [to_event ''s1'' (1, ''INFO start'', ''e1''), to_event ''s1'' (3, ''ERROR boom'', ''e3'')]"
    using unfiltered [THEN conjunct2, THEN conjunct2, THEN conjunct1]
    by (simp add: demo_logs_def)
  show ?thesis
    by (rule conjI [OF a conjI [OF b conjI [OF c conjI [OF d e]]]])
qed

subsection \<open>The output option\<close>

text \<open>
  C9. \<open>OutputOption(output) if output else OutputOption.text\<close>: the puller is generated
  with \<open>OutputOption.text\<close> when no output format is given (the option is \<open>None\<close>, or
  empty, which Python also takes as false), and with the option \<open>OutputOption\<close> makes of
  the given format otherwise. During a run nothing else is ever passed to
  \<open>generate_puller\<close> as the output option.
\<close>

theorem output_defaults_to_text:
  "(\<forall>cp infos' f g opt' i. GeneratePuller cp infos' f g opt' i \<in> set (calls (do_cli env names stack_name filter_pattern tailing
        include_tracing start_time end_time cw_log_groups outp region profile)) \<longrightarrow>
      (case outp of
         None \<Rightarrow> opt' = OutputOption_text env
       | Some x \<Rightarrow> if x = [] then opt' = OutputOption_text env
                   else OutputOption env x = Inr opt'))
   \<and> (outp = None \<and>
       parse_time env start_time ''start-time'' = Inr s \<and>
       parse_time env end_time ''end-time'' = Inr e \<and>
       get_resource_information env (resolver_of region profile stack_name names)
         (cw_log_groups = []) = Inr infos \<longrightarrow>
       filter is_generate_puller (calls (do_cli env names stack_name filter_pattern tailing
        include_tracing start_time end_time cw_log_groups outp region profile)) =
         [GeneratePuller (get_boto_client_provider_with_config region profile) infos
            filter_pattern cw_log_groups (OutputOption_text env) include_tracing])
   \<and> (outp = Some x \<and> x \<noteq> [] \<and> OutputOption env x = Inr opt \<and>
       parse_time env start_time ''start-time'' = Inr s \<and>
       parse_time env end_time ''end-time'' = Inr e \<and>
       get_resource_information env (resolver_of region profile stack_name names)
         (cw_log_groups = []) = Inr infos \<longrightarrow>
       filter is_generate_puller (calls (do_cli env names stack_name filter_pattern tailing
        include_tracing start_time end_time cw_log_groups outp region profile)) =
         [GeneratePuller (get_boto_client_provider_with_config region profile) infos
            filter_pattern cw_log_groups opt include_tracing])"
proof (intro conjI)
  show "\<forall>cp infos' f g opt' i. GeneratePuller cp infos' f g opt' i \<in> set (calls (do_cli env names stack_name filter_pattern tailing
        include_tracing start_time end_time cw_log_groups outp region profile)) \<longrightarrow>
      (case outp of
         None \<Rightarrow> opt' = OutputOption_text env
       | Some x \<Rightarrow> if x = [] then opt' = OutputOption_text env
                   else OutputOption env x = Inr opt')"
    unfolding do_cli_def one_name
    by (auto simp add: run_simps output_option_of_def split: sum.splits option.splits if_splits)
  show "outp = None \<and>
       parse_time env start_time ''start-time'' = Inr s \<and>
       parse_time env end_time ''end-time'' = Inr e \<and>
       get_resource_information env (resolver_of region profile stack_name names)
         (cw_log_groups = []) = Inr infos \<longrightarrow>
       filter is_generate_puller (calls (do_cli env names stack_name filter_pattern tailing
        include_tracing start_time end_time cw_log_groups outp region profile)) =
         [GeneratePuller (get_boto_client_provider_with_config region profile) infos
            filter_pattern cw_log_groups (OutputOption_text env) include_tracing]"
    unfolding do_cli_def one_name
    by (simp add: run_simps output_option_of_def split: sum.splits)
  show "outp = Some x \<and> x \<noteq> [] \<and> OutputOption env x = Inr opt \<and>
       parse_time env start_time ''start-time'' = Inr s \<and>
       parse_time env end_time ''end-time'' = Inr e \<and>
       get_resource_information env (resolver_of region profile stack_name names)
         (cw_log_groups = []) = Inr infos \<longrightarrow>
       filter is_generate_puller (calls (do_cli env names stack_name filter_pattern tailing
        include_tracing start_time end_time cw_log_groups outp region profile)) =
         [GeneratePuller (get_boto_client_provider_with_config region profile) infos
            filter_pattern cw_log_groups opt include_tracing]"
    unfolding do_cli_def one_name
    by (simp add: run_simps output_option_of_def split: sum.splits)
qed

theorem output_defaults_to_text_witness:
  "filter is_generate_puller (calls (do_cli demo_env [] (Some ''stack'') None False False
       None None [] None None None)) =
     [GeneratePuller (get_boto_client_provider_with_config None None)
        [''FunctionA'', ''FunctionB''] None [] (OutputOption_text demo_env) False]
   \<and> OutputOption_text demo_env = ''text''
   \<and> filter is_generate_puller (calls (do_cli demo_env [] (Some ''stack'') None False False
       None None [] (Some ''json'') None None)) =
     [GeneratePuller (get_boto_client_provider_with_config None None)
        [''FunctionA'', ''FunctionB''] None [] ''json'' False]"
  using output_defaults_to_text [where env = demo_env and names = "[]"
      and stack_name = "Some ''stack''" and filter_pattern = None and tailing = False
      and include_tracing = False and start_time = None and end_time = None
      and cw_log_groups = "[]" and outp = None and region = None and profile = None
      and s = None and e = None and infos = "[''FunctionA'', ''FunctionB'']"
      and x = "''json''" and opt = "''json''"]
    output_defaults_to_text [where env = demo_env and names = "[]"
      and stack_name = "Some ''stack''" and filter_pattern = None and tailing = False
      and include_tracing = False and start_time = None and end_time = None
      and cw_log_groups = "[]" and outp = "Some ''json''" and region = None and profile = None
      and s = None and e = None and infos = "[''FunctionA'', ''FunctionB'']"
      and x = "''json''" and opt = "''json''"]
  by (simp add: demo_collaborators)

section \<open>Properties of the streaming engine\<close>

subsection \<open>Merge ordering\<close>

lemma merge_key_le_ordering_key:
  "merge_key a \<le> merge_key b \<Longrightarrow> ordering_key a \<le> ordering_key b"
  by (auto simp: merge_key_def ordering_key_def)

lemma ordering_key_le_merge_key:
  "ordering_key a \<le> ordering_key b \<Longrightarrow> source_id a = source_id b \<Longrightarrow>
     merge_key a \<le> merge_key b"
  by (auto simp: merge_key_def ordering_key_def)

lemma same_merge_key_same_source: "merge_key a = merge_key b \<Longrightarrow> source_id a = source_id b"
  by (simp add: merge_key_def)

lemma sorted_merge_key_imp_ordering_key:
  "sorted (map merge_key xs) \<Longrightarrow> sorted (map ordering_key xs)"
  unfolding sorted_map
  by (erule sorted_wrt_mono_rel [rotated]) (rule merge_key_le_ordering_key)

lemma sorted_ordering_key_imp_merge_key:
  assumes "sorted (map ordering_key xs)" "single_source xs"
  shows "sorted (map merge_key xs)"
  using assms unfolding sorted_map single_source_def
  by (elim sorted_wrt_mono_rel [rotated]) (auto intro: ordering_key_le_merge_key)

lemma pick_next_None: "pick_next seqs = None \<Longrightarrow> concat seqs = []"
  by (induction seqs rule: pick_next.induct) (auto split: option.splits if_splits)

lemma pick_next_sorted:
  "pick_next seqs = Some (e, seqs') \<Longrightarrow> \<forall>xs \<in> set seqs. sorted (map merge_key xs) \<Longrightarrow>
     \<forall>xs \<in> set seqs'. sorted (map merge_key xs)"
  by (induction seqs arbitrary: e seqs' rule: pick_next.induct)
     (auto split: option.splits if_splits)

text \<open>The event a step takes is least among all events that are left.\<close>

lemma pick_next_least:
  "pick_next seqs = Some (e, seqs') \<Longrightarrow> \<forall>xs \<in> set seqs. sorted (map merge_key xs) \<Longrightarrow>
     \<forall>y \<in> set (concat seqs). merge_key e \<le> merge_key y"
proof (induction seqs arbitrary: e seqs' rule: pick_next.induct)
  case 1
  then show ?case by simp
next
  case (2 rest)
  then show ?case by (auto split: option.splits)
next
  case (3 x xs rest)
  show ?case
  proof (cases "pick_next rest")
    case None
    with 3 pick_next_None [OF None] show ?thesis by auto
  next
    case (Some p)
    obtain e' rest' where p: "p = (e', rest')" by (cases p)
    from 3 Some p have IH: "\<forall>y \<in> set (concat rest). merge_key e' \<le> merge_key y"
      by auto
    from 3 have xs: "\<forall>y \<in> set xs. merge_key x \<le> merge_key y" by auto
    show ?thesis
    proof (cases "merge_key x \<le> merge_key e'")
      case True
      with 3 Some p have "e = x" by simp
      with True IH xs show ?thesis by (auto intro: order_trans)
    next
      case False
      with 3 Some p have "e = e'" by simp
      moreover from False have "merge_key e' \<le> merge_key x" by simp
      ultimately show ?thesis using IH xs by (auto intro: order_trans)
    qed
  qed
qed

text \<open>
  A step takes the first of the events with its key, in the order of the concatenated
  sequences, and leaves the order of the others as it was.
\<close>

lemma pick_next_stable:
  "pick_next seqs = Some (e, seqs') \<Longrightarrow> \<forall>xs \<in> set seqs. sorted (map merge_key xs) \<Longrightarrow>
     filter (\<lambda>y. merge_key y = k) (concat seqs) =
       (if merge_key e = k then e # filter (\<lambda>y. merge_key y = k) (concat seqs')
        else filter (\<lambda>y. merge_key y = k) (concat seqs'))"
proof (induction seqs arbitrary: e seqs' rule: pick_next.induct)
  case 1
  then show ?case by simp
next
  case (2 rest)
  then show ?case by (auto split: option.splits)
next
  case (3 x xs rest)
  show ?case
  proof (cases "pick_next rest")
    case None
    with 3 pick_next_None [OF None] show ?thesis by auto
  next
    case (Some p)
    obtain e' rest' where p: "p = (e', rest')" by (cases p)
    from 3 Some p have IH: "filter (\<lambda>y. merge_key y = k) (concat rest) =
       (if merge_key e' = k then e' # filter (\<lambda>y. merge_key y = k) (concat rest')
        else filter (\<lambda>y. merge_key y = k) (concat rest'))"
      by auto
    from 3 have xs: "\<forall>y \<in> set xs. merge_key x \<le> merge_key y" by auto
    show ?thesis
    proof (cases "merge_key x \<le> merge_key e'")
      case True
      with 3 Some p have "e = x" "seqs' = xs # rest" by simp_all
      then show ?thesis by simp
    next
      case False
      with 3 Some p have e: "e = e'" "seqs' = (x # xs) # rest'" by simp_all
      show ?thesis
      proof (cases "merge_key e' = k")
        case True
        with False xs have "\<forall>y \<in> set (x # xs). merge_key y \<noteq> k" by auto
        then have none: "filter (\<lambda>y. merge_key y = k) (x # xs) = []"
          unfolding filter_empty_conv by blast
        have "filter (\<lambda>y. merge_key y = k) (concat ((x # xs) # rest)) =
              filter (\<lambda>y. merge_key y = k) (x # xs) @ filter (\<lambda>y. merge_key y = k) (concat rest)"
          by (simp only: concat.simps filter_append)
        also have "\<dots> = e' # filter (\<lambda>y. merge_key y = k) (concat rest')"
          using none IH True by simp
        also have "filter (\<lambda>y. merge_key y = k) (concat rest') =
              filter (\<lambda>y. merge_key y = k) (x # xs) @ filter (\<lambda>y. merge_key y = k) (concat rest')"
          using none by (simp only: append_Nil)
        also have "\<dots> = filter (\<lambda>y. merge_key y = k) (concat ((x # xs) # rest'))"
          by (simp only: concat.simps filter_append)
        finally show ?thesis using e True by simp
      next
        case False
        with e IH show ?thesis by simp
      qed
    qed
  qed
qed

lemma kway_merge_mset: "mset (kway_merge seqs) = mset (concat seqs)"
proof (induction seqs rule: kway_merge.induct)
  case (1 seqs)
  show ?case
  proof (cases "pick_next seqs")
    case None
    with pick_next_None [OF None] show ?thesis by (simp add: kway_merge.simps [of seqs])
  next
    case (Some p)
    then have "pick_next seqs = Some (fst p, snd p)" by simp
    from pick_next_mset [OF this] 1 [OF Some] Some show ?thesis
      by (simp add: kway_merge.simps [of seqs])
  qed
qed

lemma kway_merge_sorted:
  "\<forall>xs \<in> set seqs. sorted (map merge_key xs) \<Longrightarrow> sorted (map merge_key (kway_merge seqs))"
proof (induction seqs rule: kway_merge.induct)
  case (1 seqs)
  show ?case
  proof (cases "pick_next seqs")
    case None
    then show ?thesis by (simp add: kway_merge.simps [of seqs])
  next
    case (Some p)
    then have p: "pick_next seqs = Some (fst p, snd p)" by simp
    from pick_next_sorted [OF p "1.prems"] have "sorted (map merge_key (kway_merge (snd p)))"
      by (rule "1.IH" [OF Some])
    moreover have "\<forall>y \<in> set (kway_merge (snd p)). merge_key (fst p) \<le> merge_key y"
    proof
      fix y assume "y \<in> set (kway_merge (snd p))"
      then have "y \<in># mset (kway_merge (snd p))" by simp
      then have "y \<in># mset (concat (snd p))" by (simp only: kway_merge_mset)
      then have "y \<in># mset (concat seqs)" using pick_next_mset [OF p] by simp
      then have "y \<in> set (concat seqs)" by simp
      with pick_next_least [OF p "1.prems"] show "merge_key (fst p) \<le> merge_key y" by blast
    qed
    ultimately show ?thesis using Some by (simp add: kway_merge.simps [of seqs])
  qed
qed

lemma kway_merge_stable:
  "\<forall>xs \<in> set seqs. sorted (map merge_key xs) \<Longrightarrow>
     filter (\<lambda>y. merge_key y = k) (kway_merge seqs) = filter (\<lambda>y. merge_key y = k) (concat seqs)"
proof (induction seqs rule: kway_merge.induct)
  case (1 seqs)
  show ?case
  proof (cases "pick_next seqs")
    case None
    have "concat seqs = []" by (rule pick_next_None [OF None])
    then have "filter (\<lambda>y. merge_key y = k) (concat seqs) = []" by (simp only: filter.simps)
    with None show ?thesis by (simp add: kway_merge.simps [of seqs])
  next
    case (Some p)
    then have p: "pick_next seqs = Some (fst p, snd p)" by simp
    from pick_next_sorted [OF p "1.prems"]
    have "filter (\<lambda>y. merge_key y = k) (kway_merge (snd p)) =
          filter (\<lambda>y. merge_key y = k) (concat (snd p))"
      by (rule "1.IH" [OF Some])
    with pick_next_stable [OF p "1.prems", of k] Some show ?thesis
      by (simp add: kway_merge.simps [of seqs])
  qed
qed

text \<open>The merge is the stable sort of the concatenated sequences by the tie-break rule.\<close>

lemma kway_merge_is_stable_sort:
  assumes "\<forall>xs \<in> set seqs. sorted (map merge_key xs)"
  shows "kway_merge seqs = sort_key merge_key (concat seqs)"
proof (rule sym, rule properties_for_sort_key)
  show "mset (kway_merge seqs) = mset (concat seqs)" by (rule kway_merge_mset)
  show "sorted (map merge_key (kway_merge seqs))" using assms by (rule kway_merge_sorted)
  fix k
  have "filter (\<lambda>y. merge_key y = merge_key k) (kway_merge seqs) =
        filter (\<lambda>y. merge_key y = merge_key k) (concat seqs)"
    using assms by (rule kway_merge_stable)
  then show "filter (\<lambda>x. merge_key k = merge_key x) (kway_merge seqs) =
        filter (\<lambda>x. merge_key k = merge_key x) (concat seqs)"
    by (simp add: eq_commute [of "merge_key k"])
qed

text \<open>With distinct sources, the events of one key all sit in one sequence.\<close>

lemma distinct_sources_one_nonempty:
  "distinct_sources seqs \<Longrightarrow>
     length (filter (\<lambda>zs. zs \<noteq> []) (map (filter (\<lambda>y. merge_key y = k)) seqs)) \<le> 1"
proof (induction seqs)
  case Nil
  then show ?case by simp
next
  case (Cons xs seqs)
  show ?case
  proof (cases "filter (\<lambda>y. merge_key y = k) xs = []")
    case True
    with Cons show ?thesis by simp
  next
    case False
    then obtain e where e: "e \<in> set xs" "merge_key e = k"
      by (auto simp: filter_empty_conv)
    have "filter (\<lambda>y. merge_key y = k) ys = []" if "ys \<in> set seqs" for ys
    proof -
      have "merge_key e' \<noteq> k" if "e' \<in> set ys" for e'
        using Cons.prems e \<open>ys \<in> set seqs\<close> that same_merge_key_same_source [of e e']
        by auto
      then show ?thesis by (auto simp: filter_empty_conv)
    qed
    then have "filter (\<lambda>zs. zs \<noteq> []) (map (filter (\<lambda>y. merge_key y = k)) seqs) = []"
      by (auto simp: filter_empty_conv)
    with False show ?thesis by simp
  qed
qed

lemma short_lists_mset_eq:
  assumes "mset as = mset bs" "length as \<le> 1"
  shows "as = bs"
proof -
  from assms(1) have "length as = length bs" by (rule mset_eq_length)
  with assms show ?thesis
    by (cases as; cases bs) auto
qed

lemma concat_without_empty: "concat (filter (\<lambda>zs. zs \<noteq> []) xss) = concat xss"
  by (induction xss) simp_all

lemma filter_concat_rearranged:
  assumes "mset seqs = mset seqs'" "distinct_sources seqs"
  shows "filter (\<lambda>y. merge_key y = k) (concat seqs) = filter (\<lambda>y. merge_key y = k) (concat seqs')"
proof -
  let ?f = "filter (\<lambda>y. merge_key y = k)"
  let ?ne = "filter (\<lambda>zs. zs \<noteq> [])"
  have "mset (?ne (map ?f seqs)) = mset (?ne (map ?f seqs'))"
    using assms(1) by (simp only: mset_filter mset_map)
  with distinct_sources_one_nonempty [OF assms(2), of k]
  have "?ne (map ?f seqs) = ?ne (map ?f seqs')" by (rule short_lists_mset_eq [rotated])
  then have "concat (?ne (map ?f seqs)) = concat (?ne (map ?f seqs'))" by simp
  then have "concat (map ?f seqs) = concat (map ?f seqs')"
    by (simp only: concat_without_empty)
  then show ?thesis by (simp only: filter_concat)
qed

lemma mset_concat_sum: "mset (concat xs) = sum_mset (image_mset mset (mset xs))"
  by (induction xs) simp_all

lemma mset_concat_rearranged:
  "mset seqs = mset seqs' \<Longrightarrow> mset (concat seqs) = mset (concat seqs')"
  by (simp only: mset_concat_sum)

text \<open>The order in which the sources are handed to the merge does not matter.\<close>

lemma kway_merge_rearranged:
  assumes "mset seqs = mset seqs'" "distinct_sources seqs"
    and "\<forall>xs \<in> set seqs. sorted (map merge_key xs)"
  shows "kway_merge seqs = kway_merge seqs'"
proof -
  have set_eq: "set seqs = set seqs'" using assms(1) by (rule mset_eq_setD)
  with assms(3) have sorted': "\<forall>xs \<in> set seqs'. sorted (map merge_key xs)" by simp
  have "sort_key merge_key (concat seqs') = kway_merge seqs"
  proof (rule properties_for_sort_key)
    show "mset (kway_merge seqs) = mset (concat seqs')"
      using mset_concat_rearranged [OF assms(1)] by (simp only: kway_merge_mset)
    show "sorted (map merge_key (kway_merge seqs))" using assms(3) by (rule kway_merge_sorted)
    fix k
    have "filter (\<lambda>y. merge_key y = merge_key k) (kway_merge seqs) =
          filter (\<lambda>y. merge_key y = merge_key k) (concat seqs)"
      using assms(3) by (rule kway_merge_stable)
    also have "\<dots> = filter (\<lambda>y. merge_key y = merge_key k) (concat seqs')"
      using assms(1,2) by (rule filter_concat_rearranged)
    finally show "filter (\<lambda>x. merge_key k = merge_key x) (kway_merge seqs) =
          filter (\<lambda>x. merge_key k = merge_key x) (concat seqs')"
      by (simp add: eq_commute [of "merge_key k"])
  qed
  with kway_merge_is_stable_sort [OF sorted'] show ?thesis by simp
qed

text \<open>With distinct sources, the events of one source are in order in the concatenation.\<close>

lemma one_source_sorted:
  "distinct_sources seqs \<Longrightarrow> \<forall>xs \<in> set seqs. sorted (map merge_key xs) \<Longrightarrow>
     sorted (map merge_key (filter (\<lambda>e. source_id e = s) (concat seqs)))"
proof (induction seqs)
  case Nil
  then show ?case by simp
next
  case (Cons xs seqs)
  from Cons.prems have sx: "sorted (map merge_key (filter (\<lambda>e. source_id e = s) xs))"
    by (simp add: sorted_filter)
  from Cons have IH: "sorted (map merge_key (filter (\<lambda>e. source_id e = s) (concat seqs)))"
    by simp
  show ?case
  proof (cases "filter (\<lambda>e. source_id e = s) xs = []")
    case True
    with IH show ?thesis by simp
  next
    case False
    then obtain e where e: "e \<in> set xs" "source_id e = s"
      by (auto simp: filter_empty_conv)
    have "source_id e' \<noteq> s" if "ys \<in> set seqs" "e' \<in> set ys" for ys e'
    proof -
      from Cons.prems(1) e(1) that have "source_id e \<noteq> source_id e'" by simp
      with e(2) show ?thesis by simp
    qed
    then have "\<forall>e' \<in> set (concat seqs). source_id e' \<noteq> s" by auto
    then have "filter (\<lambda>e. source_id e = s) (concat seqs) = []"
      by (auto simp: filter_empty_conv)
    with sx show ?thesis by simp
  qed
qed

lemma kway_merge_keeps_source_order:
  assumes "distinct_sources seqs" "\<forall>xs \<in> set seqs. sorted (map merge_key xs)"
  shows "filter (\<lambda>e. source_id e = s) (kway_merge seqs) =
         filter (\<lambda>e. source_id e = s) (concat seqs)"
proof -
  have "filter (\<lambda>e. source_id e = s) (kway_merge seqs) =
        filter (\<lambda>e. source_id e = s) (sort_key merge_key (concat seqs))"
    by (simp only: kway_merge_is_stable_sort [OF assms(2)])
  also have "\<dots> = sort_key merge_key (filter (\<lambda>e. source_id e = s) (concat seqs))"
    by (rule filter_sort)
  also have "\<dots> = filter (\<lambda>e. source_id e = s) (concat seqs)"
    using one_source_sorted [OF assms] by (rule sort_key_id_if_sorted)
  finally show ?thesis .
qed

text \<open>
  C1. Let every per-source sequence be sorted by ordering key (timestamp, de-dup key) and
  hold events of one source. Then the merged output is sorted by ordering key; it is a
  permutation of the inputs; ties on equal timestamps are broken by de-dup key and then
  by source identifier (the output is sorted by the tie-break rule); it is stable (events
  that the rule does not tell apart keep their input order, and with distinct sources
  each source's events keep theirs); and the ordering is determined by the inputs alone:
  the output is the stable sort of the inputs by the rule, and with distinct sources it is
  the same in whatever order the sources are handed to the merge.
\<close>

theorem merge_ordering:
  assumes "\<forall>xs \<in> set seqs. sorted (map ordering_key xs) \<and> single_source xs"
  shows "sorted (map ordering_key (kway_merge seqs))
    \<and> mset (kway_merge seqs) = mset (concat seqs)
    \<and> sorted (map merge_key (kway_merge seqs))
    \<and> (\<forall>k. filter (\<lambda>e. merge_key e = k) (kway_merge seqs) =
            filter (\<lambda>e. merge_key e = k) (concat seqs))
    \<and> kway_merge seqs = sort_key merge_key (concat seqs)
    \<and> (distinct_sources seqs \<longrightarrow>
         (\<forall>s. filter (\<lambda>e. source_id e = s) (kway_merge seqs) =
              filter (\<lambda>e. source_id e = s) (concat seqs)))
    \<and> (distinct_sources seqs \<longrightarrow>
         (\<forall>seqs'. mset seqs = mset seqs' \<longrightarrow> kway_merge seqs' = kway_merge seqs))"
proof -
  from assms have s: "\<forall>xs \<in> set seqs. sorted (map merge_key xs)"
    by (auto intro: sorted_ordering_key_imp_merge_key)
  have 1: "sorted (map merge_key (kway_merge seqs))" using s by (rule kway_merge_sorted)
  then have 2: "sorted (map ordering_key (kway_merge seqs))"
    by (rule sorted_merge_key_imp_ordering_key)
  have 3: "mset (kway_merge seqs) = mset (concat seqs)" by (rule kway_merge_mset)
  have 4: "\<forall>k. filter (\<lambda>e. merge_key e = k) (kway_merge seqs) =
            filter (\<lambda>e. merge_key e = k) (concat seqs)"
    using kway_merge_stable [OF s] by blast
  have 5: "kway_merge seqs = sort_key merge_key (concat seqs)"
    using s by (rule kway_merge_is_stable_sort)
  have 6: "distinct_sources seqs \<longrightarrow>
         (\<forall>s. filter (\<lambda>e. source_id e = s) (kway_merge seqs) =
              filter (\<lambda>e. source_id e = s) (concat seqs))"
    using kway_merge_keeps_source_order [OF _ s] by blast
  have 7: "distinct_sources seqs \<longrightarrow>
         (\<forall>seqs'. mset seqs = mset seqs' \<longrightarrow> kway_merge seqs' = kway_merge seqs)"
  proof (intro impI allI)
    fix seqs'
    assume d: "distinct_sources seqs" and m: "mset seqs = mset seqs'"
    from kway_merge_rearranged [OF m d s] show "kway_merge seqs' = kway_merge seqs"
      by (rule sym)
  qed
  show ?thesis
    by (rule conjI [OF 2 conjI [OF 3 conjI [OF 1 conjI [OF 4 conjI [OF 5 conjI [OF 6 7]]]]]])
qed

lemma demo_seqs_well_formed:
  "\<forall>xs \<in> set demo_seqs. sorted (map ordering_key xs) \<and> single_source xs"
  "distinct_sources demo_seqs"
  by (simp_all add: demo_seqs_def to_event_def ordering_key_def single_source_def)

lemma demo_merge:
  "kway_merge demo_seqs =
     [to_event ''s1'' (1, ''one'', ''e1''), to_event ''s2'' (2, ''two'', ''e2''),
      to_event ''s1'' (3, ''three'', ''e3''), to_event ''s2'' (3, ''three again'', ''e4'')]"
  by (simp add: demo_seqs_def to_event_def merge_key_def kway_merge.simps)

theorem merge_ordering_witness:
  "kway_merge demo_seqs =
     [to_event ''s1'' (1, ''one'', ''e1''), to_event ''s2'' (2, ''two'', ''e2''),
      to_event ''s1'' (3, ''three'', ''e3''), to_event ''s2'' (3, ''three again'', ''e4'')]
   \<and> sorted (map ordering_key (kway_merge demo_seqs))
   \<and> mset (kway_merge demo_seqs) = mset (concat demo_seqs)
   \<and> kway_merge (rev demo_seqs) = kway_merge demo_seqs"
proof -
  note t = merge_ordering [OF demo_seqs_well_formed(1)]
  have a: "sorted (map ordering_key (kway_merge demo_seqs))"
    by (rule t [THEN conjunct1])
  have b: "mset (kway_merge demo_seqs) = mset (concat demo_seqs)"
    by (rule t [THEN conjunct2, THEN conjunct1])
  have "distinct_sources demo_seqs \<longrightarrow>
      (\<forall>seqs'. mset demo_seqs = mset seqs' \<longrightarrow> kway_merge seqs' = kway_merge demo_seqs)"
    by (rule t [THEN conjunct2, THEN conjunct2, THEN conjunct2, THEN conjunct2,
          THEN conjunct2, THEN conjunct2])
  from this demo_seqs_well_formed(2)
  have "\<forall>seqs'. mset demo_seqs = mset seqs' \<longrightarrow> kway_merge seqs' = kway_merge demo_seqs"
    by (rule mp)
  then have "mset demo_seqs = mset (rev demo_seqs) \<longrightarrow>
      kway_merge (rev demo_seqs) = kway_merge demo_seqs"
    by (rule spec)
  then have c: "kway_merge (rev demo_seqs) = kway_merge demo_seqs" by simp
  show ?thesis
    by (rule conjI [OF demo_merge conjI [OF a conjI [OF b c]]])
qed

subsection \<open>No loss and no duplication in window mode\<close>

lemma load_window_mset:
  "mset (LoadWindow svc sources window flt) =
     mset (concat (map (\<lambda>src. fetched (FetchWindow svc src window flt)) sources))"
  by (simp only: LoadWindow_def kway_merge_mset)

lemma length_filter_concat_map:
  "length (filter P (concat (map f xs))) = (\<Sum>x\<leftarrow>xs. length (filter P (f x)))"
  by (induction xs) simp_all

text \<open>
  C2. For every \<open>LoadWindow\<close> call, the multiset of emitted events is the sum of the
  multisets fetched from the sources: nothing is lost and nothing is emitted that was not
  fetched. In particular the de-dup keys emitted are exactly the de-dup keys fetched,
  every de-dup key is emitted as often as it was fetched, and when the fetched events
  have pairwise different de-dup keys, each is emitted exactly once.
\<close>

theorem load_window_no_loss_no_duplication:
  "mset (LoadWindow svc sources window flt) =
     (\<Sum>src\<leftarrow>sources. mset (fetched (FetchWindow svc src window flt)))
   \<and> dedup_key ` set (LoadWindow svc sources window flt) =
     (\<Union>src \<in> set sources. dedup_key ` set (fetched (FetchWindow svc src window flt)))
   \<and> (\<forall>k. length (filter (\<lambda>e. dedup_key e = k) (LoadWindow svc sources window flt)) =
          (\<Sum>src\<leftarrow>sources. length (filter (\<lambda>e. dedup_key e = k)
             (fetched (FetchWindow svc src window flt)))))
   \<and> (distinct (map dedup_key
          (concat (map (\<lambda>src. fetched (FetchWindow svc src window flt)) sources))) \<longrightarrow>
       distinct (map dedup_key (LoadWindow svc sources window flt)))"
proof -
  define per where "per = map (\<lambda>src. fetched (FetchWindow svc src window flt)) sources"
  define out where "out = LoadWindow svc sources window flt"
  have m: "mset out = mset (concat per)"
    unfolding per_def out_def by (rule load_window_mset)
  have 1: "mset out = (\<Sum>src\<leftarrow>sources. mset (fetched (FetchWindow svc src window flt)))"
    unfolding m per_def by (simp only: mset_concat map_map comp_def)
  have s: "set out = set (concat per)" using m by (rule mset_eq_setD)
  have 2: "dedup_key ` set out =
     (\<Union>src \<in> set sources. dedup_key ` set (fetched (FetchWindow svc src window flt)))"
    unfolding s per_def by (simp add: image_UN)
  have 3: "\<forall>k. length (filter (\<lambda>e. dedup_key e = k) out) =
          (\<Sum>src\<leftarrow>sources. length (filter (\<lambda>e. dedup_key e = k)
             (fetched (FetchWindow svc src window flt))))"
  proof
    fix k
    have "mset (filter (\<lambda>e. dedup_key e = k) out) =
          mset (filter (\<lambda>e. dedup_key e = k) (concat per))"
      by (simp only: mset_filter m)
    then have "length (filter (\<lambda>e. dedup_key e = k) out) =
               length (filter (\<lambda>e. dedup_key e = k) (concat per))"
      by (rule mset_eq_length)
    then show "length (filter (\<lambda>e. dedup_key e = k) out) =
          (\<Sum>src\<leftarrow>sources. length (filter (\<lambda>e. dedup_key e = k)
             (fetched (FetchWindow svc src window flt))))"
      unfolding per_def by (simp only: length_filter_concat_map)
  qed
  have 4: "distinct (map dedup_key (concat per)) \<longrightarrow> distinct (map dedup_key out)"
  proof
    assume d: "distinct (map dedup_key (concat per))"
    have "mset (map dedup_key out) = mset (map dedup_key (concat per))"
      by (simp only: mset_map m)
    from mset_eq_imp_distinct_iff [OF this] d show "distinct (map dedup_key out)" by simp
  qed
  show ?thesis
    using conjI [OF 1 conjI [OF 2 conjI [OF 3 4]]] unfolding per_def out_def .
qed

lemma demo_fetched:
  "fetched (FetchWindow demo_service ''s1'' w None) =
     [to_event ''s1'' (1, ''one'', ''e1''), to_event ''s1'' (3, ''three'', ''e3'')]"
  "fetched (FetchWindow demo_service ''s2'' w None) =
     [to_event ''s2'' (2, ''two'', ''e2''), to_event ''s2'' (3, ''three again'', ''e4'')]"
  "fetched (FetchWindow demo_service ''s3'' w None) = []"
  by (simp_all add: fetched_def FetchWindow_def demo_service_def)

lemma demo_load_window:
  "LoadWindow demo_service [''s1'', ''s2'', ''s3''] w None =
     [to_event ''s1'' (1, ''one'', ''e1''), to_event ''s2'' (2, ''two'', ''e2''),
      to_event ''s1'' (3, ''three'', ''e3''), to_event ''s2'' (3, ''three again'', ''e4'')]"
  by (simp add: LoadWindow_def demo_fetched to_event_def merge_key_def kway_merge.simps)

theorem load_window_no_loss_no_duplication_witness:
  "distinct (map dedup_key (LoadWindow demo_service [''s1'', ''s2'', ''s3'']
       \<lparr>window_start = 0, window_end = 10\<rparr> None))
   \<and> map dedup_key (LoadWindow demo_service [''s1'', ''s2'', ''s3'']
       \<lparr>window_start = 0, window_end = 10\<rparr> None) = [''e1'', ''e2'', ''e3'', ''e4'']"
proof -
  let ?w = "\<lparr>window_start = 0, window_end = 10\<rparr>"
  have d: "distinct (map dedup_key (concat (map
      (\<lambda>src. fetched (FetchWindow demo_service src ?w None)) [''s1'', ''s2'', ''s3''])))"
    by (simp add: demo_fetched to_event_def)
  have a: "distinct (map dedup_key (LoadWindow demo_service [''s1'', ''s2'', ''s3''] ?w None))"
    using load_window_no_loss_no_duplication [of demo_service "[''s1'', ''s2'', ''s3'']" ?w None,
        THEN conjunct2, THEN conjunct2, THEN conjunct2] d
    by (rule mp)
  have b: "map dedup_key (LoadWindow demo_service [''s1'', ''s2'', ''s3''] ?w None) =
      [''e1'', ''e2'', ''e3'', ''e4'']"
    by (simp add: demo_load_window to_event_def)
  show ?thesis by (rule conjI [OF a b])
qed

subsection \<open>Cursor monotonicity\<close>

lemma advance_ge: "cursor \<le> advance cursor es"
  unfolding advance_def
proof (induction es arbitrary: cursor)
  case Nil
  then show ?case by simp
next
  case (Cons a es)
  have "cursor \<le> max cursor (ordering_key a)" by simp
  also have "\<dots> \<le> fold (\<lambda>e c. max c (ordering_key e)) es (max cursor (ordering_key a))"
    by (rule Cons.IH)
  finally show ?case by simp
qed

lemma advance_covers: "e \<in> set es \<Longrightarrow> ordering_key e \<le> advance cursor es"
  unfolding advance_def
proof (induction es arbitrary: cursor)
  case Nil
  then show ?case by simp
next
  case (Cons a es)
  show ?case
  proof (cases "e = a")
    case True
    have "ordering_key a \<le> max cursor (ordering_key a)" by simp
    also have "\<dots> \<le> fold (\<lambda>e c. max c (ordering_key e)) es (max cursor (ordering_key a))"
      using advance_ge [of "max cursor (ordering_key a)" es] by (simp add: advance_def)
    finally show ?thesis using True by simp
  next
    case False
    with Cons show ?thesis by simp
  qed
qed

lemma Poll_new: "e \<in> set (fst (Poll svc src cursor flt)) \<Longrightarrow> cursor < ordering_key e"
  by (auto simp: Poll_def Let_def split: sum.splits)

lemma Poll_cursor_ge: "cursor \<le> snd (Poll svc src cursor flt)"
  by (auto simp: Poll_def Let_def advance_ge split: sum.splits)

lemma Poll_covers: "e \<in> set (fst (Poll svc src cursor flt)) \<Longrightarrow>
    ordering_key e \<le> snd (Poll svc src cursor flt)"
  by (auto simp: Poll_def Let_def split: sum.splits intro: advance_covers)

lemma Poll_nothing_new:
  "fst (Poll svc src cursor flt) = [] \<Longrightarrow> snd (Poll svc src cursor flt) = cursor"
  by (auto simp: Poll_def Let_def advance_def split: sum.splits)

text \<open>Every event of every round is past the cursor the rounds started from.\<close>

lemma poll_rounds_new:
  "r \<in> set (poll_rounds svcs src cursor flt) \<Longrightarrow> e \<in> set (fst r) \<Longrightarrow> cursor < ordering_key e"
proof (induction svcs arbitrary: cursor)
  case Nil
  then show ?case by simp
next
  case (Cons svc svcs)
  from Cons.prems(1) consider "r = Poll svc src cursor flt"
    | "r \<in> set (poll_rounds svcs src (snd (Poll svc src cursor flt)) flt)"
    by (auto simp: Let_def)
  then show ?case
  proof cases
    case 1
    with Cons.prems(2) show ?thesis by (simp add: Poll_new)
  next
    case 2
    from Cons.IH [OF 2 Cons.prems(2)] have "snd (Poll svc src cursor flt) < ordering_key e" .
    with Poll_cursor_ge [of cursor svc src flt] show ?thesis by (rule le_less_trans)
  qed
qed

lemma poll_rounds_cursor_ge:
  "r \<in> set (poll_rounds svcs src cursor flt) \<Longrightarrow> cursor \<le> snd r"
proof (induction svcs arbitrary: cursor)
  case Nil
  then show ?case by simp
next
  case (Cons svc svcs)
  from Cons.prems consider "r = Poll svc src cursor flt"
    | "r \<in> set (poll_rounds svcs src (snd (Poll svc src cursor flt)) flt)"
    by (auto simp: Let_def)
  then show ?case
  proof cases
    case 1
    then show ?thesis by (simp add: Poll_cursor_ge)
  next
    case 2
    from Cons.IH [OF 2] Poll_cursor_ge [of cursor svc src flt] show ?thesis
      by (rule order_trans [rotated])
  qed
qed

text \<open>
  A round in the middle of a run is a poll from a cursor at or past the first one, and the
  rounds after it are a run that starts from the cursor it returned.
\<close>

lemma poll_rounds_split:
  "poll_rounds svcs src cursor flt = before @ r # after \<Longrightarrow>
     (\<exists>svc c. r = Poll svc src c flt \<and> cursor \<le> c) \<and>
     (\<exists>svcs'. after = poll_rounds svcs' src (snd r) flt)"
proof (induction svcs arbitrary: cursor before)
  case Nil
  then show ?case by simp
next
  case (Cons svc svcs)
  note prems = Cons.prems and IH = Cons.IH
  show ?case
  proof (cases before)
    case Nil
    with prems have "r = Poll svc src cursor flt"
      "after = poll_rounds svcs src (snd r) flt" by (auto simp: Let_def)
    then show ?thesis by blast
  next
    case (Cons b bs)
    with prems have
      "poll_rounds svcs src (snd (Poll svc src cursor flt)) flt = bs @ r # after"
      by (auto simp: Let_def)
    from IH [OF this] obtain svc' c svcs' where
      "r = Poll svc' src c flt" "snd (Poll svc src cursor flt) \<le> c"
      "after = poll_rounds svcs' src (snd r) flt" by blast
    with Poll_cursor_ge [of cursor svc src flt] show ?thesis
      by (blast intro: order_trans)
  qed
qed

text \<open>
  C3. Take any sequence of \<open>Poll\<close> calls on one source, each from the cursor the call
  before returned, and any round of it with the increment \<open>out\<close> and the returned cursor
  \<open>cursor'\<close>. The cursor never moves back; every event of the increment is past the
  cursor the run started from and is covered by the cursor returned with it; and no event
  emitted in any later round has an ordering key less than or equal to \<open>cursor'\<close>: what
  the cursor covers is dropped, whatever the service returns. Within one call, an event
  of the service's answer is emitted exactly when its ordering key is past the cursor.
\<close>

theorem cursor_monotonicity:
  assumes "poll_rounds svcs src cursor flt = before @ (out, cursor') # after"
  shows "cursor \<le> cursor'
   \<and> (\<forall>e \<in> set out. cursor < ordering_key e \<and> ordering_key e \<le> cursor')
   \<and> (\<forall>r \<in> set after. \<forall>e \<in> set (fst r). \<not> ordering_key e \<le> cursor')
   \<and> (\<forall>r \<in> set after. cursor' \<le> snd r)
   \<and> (\<forall>svc c raws. svc src (Inr c) flt = Inr raws \<longrightarrow>
         fst (Poll svc src c flt) =
           filter (\<lambda>e. \<not> ordering_key e \<le> c) (map (to_event src) raws))"
proof -
  from poll_rounds_split [OF assms] obtain svc c svcs' where
    r: "(out, cursor') = Poll svc src c flt" and c: "cursor \<le> c"
    and after: "after = poll_rounds svcs' src cursor' flt" by auto
  from r [symmetric] have out: "out = fst (Poll svc src c flt)"
    and cur: "cursor' = snd (Poll svc src c flt)"
    by simp_all
  have 1: "cursor \<le> cursor'" using c Poll_cursor_ge [of c svc src flt] cur by simp
  have 2: "\<forall>e \<in> set out. cursor < ordering_key e \<and> ordering_key e \<le> cursor'"
    using Poll_new [of _ svc src c flt] Poll_covers [of _ svc src c flt] c out cur
    by (auto intro: le_less_trans)
  have "\<forall>r \<in> set after. \<forall>e \<in> set (fst r). cursor' < ordering_key e"
    using after poll_rounds_new by blast
  then have 3: "\<forall>r \<in> set after. \<forall>e \<in> set (fst r). \<not> ordering_key e \<le> cursor'"
    by (simp add: not_le)
  have 4: "\<forall>r \<in> set after. cursor' \<le> snd r"
    using after poll_rounds_cursor_ge by blast
  have 5: "\<forall>svc c raws. svc src (Inr c) flt = Inr raws \<longrightarrow>
         fst (Poll svc src c flt) =
           filter (\<lambda>e. \<not> ordering_key e \<le> c) (map (to_event src) raws)"
    by (simp add: Poll_def Let_def not_le)
  show ?thesis
    by (rule conjI [OF 1 conjI [OF 2 conjI [OF 3 conjI [OF 4 5]]]])
qed

lemma demo_rounds:
  "poll_rounds [demo_round1, demo_round2] ''s1'' (0, []) None =
     [] @ ([to_event ''s1'' (5, ''five'', ''e5''), to_event ''s1'' (6, ''six'', ''e6'')],
           (6, ''e6''))
        # [([to_event ''s1'' (7, ''seven'', ''e7'')], (7, ''e7''))]"
  by (simp add: Poll_def demo_round1_def demo_round2_def to_event_def ordering_key_def
      advance_def Let_def)

theorem cursor_monotonicity_witness:
  "poll_rounds [demo_round1, demo_round2] ''s1'' (0, []) None =
     [([to_event ''s1'' (5, ''five'', ''e5''), to_event ''s1'' (6, ''six'', ''e6'')],
       (6, ''e6'')),
      ([to_event ''s1'' (7, ''seven'', ''e7'')], (7, ''e7''))]
   \<and> \<not> ordering_key (to_event ''s1'' (7, ''seven'', ''e7'')) \<le> (6, ''e6'')
   \<and> ((0, []) :: Cursor) \<le> (6, ''e6'')"
proof -
  note t = cursor_monotonicity [OF demo_rounds]
  have a: "((0, []) :: Cursor) \<le> (6, ''e6'')" by (rule t [THEN conjunct1])
  have "\<forall>r \<in> set [([to_event ''s1'' (7, ''seven'', ''e7'')], (7 :: nat, ''e7''))].
      \<forall>e \<in> set (fst r). \<not> ordering_key e \<le> (6, ''e6'')"
    by (rule t [THEN conjunct2, THEN conjunct2, THEN conjunct1])
  then have b: "\<not> ordering_key (to_event ''s1'' (7, ''seven'', ''e7'')) \<le> (6, ''e6'')"
    by simp
  have c: "poll_rounds [demo_round1, demo_round2] ''s1'' (0, []) None =
     [([to_event ''s1'' (5, ''five'', ''e5''), to_event ''s1'' (6, ''six'', ''e6'')],
       (6, ''e6'')),
      ([to_event ''s1'' (7, ''seven'', ''e7'')], (7, ''e7''))]"
    using demo_rounds by simp
  show ?thesis by (rule conjI [OF c conjI [OF b a]])
qed

subsection \<open>Validation comes first\<close>

lemma validate_link_Some:
  "(validate_link l \<noteq> None) =
     (link_via_indirection l \<or> 1 < card (set (link_destinations l)))"
  by (simp add: validate_link_def length_remdups_card_conv)

lemma validate_links_Some:
  "(validate_links ls \<noteq> None) =
     (\<exists>l \<in> set ls. link_via_indirection l \<or> 1 < card (set (link_destinations l)))"
proof (induction ls)
  case Nil
  then show ?case by simp
next
  case (Cons l ls)
  show ?case
  proof (cases "validate_link l")
    case None
    with validate_link_Some [of l] Cons show ?thesis by simp
  next
    case (Some err)
    with validate_link_Some [of l] show ?thesis by simp
  qed
qed

text \<open>The validation finds an error exactly in the structurally invalid configurations.\<close>

lemma validate_complete: "(validate cfg \<noteq> None) = structurally_invalid cfg"
  using validate_links_Some [of "links cfg"]
  by (auto simp add: validate_def structurally_invalid_def)

text \<open>
  C5. A run whose configuration is structurally invalid (conflicting mode flags, a
  resource linked to more than one destination resource, or a link through an
  indirection) fails before any puller starts: no puller is started, no event is emitted,
  the exit code is 1 and so not zero, and the validation error is reported. A run whose
  configuration is not structurally invalid starts a puller for every source.
\<close>

theorem invalid_configuration_fails_fast:
  "(structurally_invalid cfg \<longrightarrow>
      pullers_started (run_window svc cfg sources window flt) = [] \<and>
      emitted (run_window svc cfg sources window flt) = [] \<and>
      exit_code (run_window svc cfg sources window flt) = 1 \<and>
      exit_code (run_window svc cfg sources window flt) \<noteq> 0 \<and>
      validation_error (run_window svc cfg sources window flt) \<noteq> None)
   \<and> (\<not> structurally_invalid cfg \<longrightarrow>
      pullers_started (run_window svc cfg sources window flt) = sources \<and>
      emitted (run_window svc cfg sources window flt) = LoadWindow svc sources window flt \<and>
      exit_code (run_window svc cfg sources window flt) = 0)"
proof (cases "validate cfg")
  case None
  with validate_complete [of cfg] show ?thesis by (simp add: run_window_def)
next
  case (Some err)
  with validate_complete [of cfg] show ?thesis by (simp add: run_window_def)
qed

lemma demo_configs:
  "structurally_invalid demo_bad_config" "\<not> structurally_invalid demo_good_config"
  by (simp_all add: structurally_invalid_def demo_bad_config_def demo_good_config_def)

theorem invalid_configuration_fails_fast_witness:
  "pullers_started (run_window demo_service demo_bad_config [''s1'', ''s2'']
       \<lparr>window_start = 0, window_end = 10\<rparr> None) = []
   \<and> emitted (run_window demo_service demo_bad_config [''s1'', ''s2'']
       \<lparr>window_start = 0, window_end = 10\<rparr> None) = []
   \<and> exit_code (run_window demo_service demo_bad_config [''s1'', ''s2'']
       \<lparr>window_start = 0, window_end = 10\<rparr> None) = 1
   \<and> pullers_started (run_window demo_service demo_good_config [''s1'', ''s2'']
       \<lparr>window_start = 0, window_end = 10\<rparr> None) = [''s1'', ''s2'']
   \<and> exit_code (run_window demo_service demo_good_config [''s1'', ''s2'']
       \<lparr>window_start = 0, window_end = 10\<rparr> None) = 0"
  using invalid_configuration_fails_fast [of demo_bad_config demo_service "[''s1'', ''s2'']"
      "\<lparr>window_start = 0, window_end = 10\<rparr>" None]
    invalid_configuration_fails_fast [of demo_good_config demo_service "[''s1'', ''s2'']"
      "\<lparr>window_start = 0, window_end = 10\<rparr>" None]
    demo_configs
  by simp

end
